theory Spec2Isabelle
  imports Main
begin

section \<open>JavaScript strings and paths\<close>

text \<open>
  A JavaScript string is modelled as a \<open>string\<close> (a list of characters; text outside
  ASCII stands as its UTF-8 bytes). Every pattern the agent searches for is ASCII, so
  splitting and searching agree with the UTF-16 view of the source.
\<close>

abbreviation NL :: string where
  "NL \<equiv> [CHR 0x0A]"

text \<open>\<^verbatim>\<open>s.split('\n')\<close>: always at least one piece; \<^verbatim>\<open>''.split('\n')\<close> is \<^verbatim>\<open>['']\<close>.\<close>

fun split_nl :: "string \<Rightarrow> string list" where
  "split_nl [] = [[]]"
| "split_nl (c # cs) =
     (if c = CHR 0x0A then [] # split_nl cs
      else (case split_nl cs of [] \<Rightarrow> [[c]] | l # ls \<Rightarrow> (c # l) # ls))"

text \<open>\<^verbatim>\<open>xs.join('\n')\<close>: the empty array joins to the empty string.\<close>

fun join_nl :: "string list \<Rightarrow> string" where
  "join_nl [] = []"
| "join_nl [l] = l"
| "join_nl (l # m # ls) = l @ NL @ join_nl (m # ls)"

text \<open>\<^verbatim>\<open>s.startsWith(p)\<close>, \<^verbatim>\<open>s.includes(p)\<close> and \<^verbatim>\<open>s.endsWith(p)\<close>.\<close>

fun startsWith :: "string \<Rightarrow> string \<Rightarrow> bool" where
  "startsWith s [] = True"
| "startsWith [] (p # ps) = False"
| "startsWith (c # cs) (p # ps) = (c = p \<and> startsWith cs ps)"

fun str_includes :: "string \<Rightarrow> string \<Rightarrow> bool" where
  "str_includes [] p = (p = [])"
| "str_includes (c # cs) p = (startsWith (c # cs) p \<or> str_includes cs p)"

definition endsWith :: "string \<Rightarrow> string \<Rightarrow> bool" where
  "endsWith s p = startsWith (rev s) (rev p)"

text \<open>
  \<^verbatim>\<open>path.join(dir, name)\<close> on POSIX, for the arguments the agent passes: \<open>dir\<close> is an
  absolute, normalised path (it comes from \<^verbatim>\<open>path.resolve\<close>) and \<open>name\<close> is a single
  path segment. Only the file-system root ends in a separator.
\<close>

definition path_join :: "string \<Rightarrow> string \<Rightarrow> string" where
  "path_join dir name = (if dir = ''/'' then dir @ name else dir @ ''/'' @ name)"

text \<open>
  \<^verbatim>\<open>path.basename(p)\<close> on POSIX: trailing separators are ignored, and the last segment
  is returned.
\<close>

definition path_basename :: "string \<Rightarrow> string" where
  "path_basename p =
     rev (takeWhile (\<lambda>c. c \<noteq> CHR ''/'') (dropWhile (\<lambda>c. c = CHR ''/'') (rev p)))"

text \<open>\<^verbatim>\<open>path.dirname(p)\<close> of an absolute, normalised path.\<close>

definition path_dirname :: "string \<Rightarrow> string" where
  "path_dirname p =
     (let d = rev (drop 1 (dropWhile (\<lambda>c. c \<noteq> CHR ''/'') (rev p)))
      in if d = [] then ''/'' else d)"

text \<open>
  \<^verbatim>\<open>path.resolve(dir, seg)\<close> for an absolute, normalised \<open>dir\<close> and a segment without
  separators (what \<^verbatim>\<open>path.basename\<close> returns): the empty segment and \<^verbatim>\<open>.\<close> resolve to
  \<open>dir\<close>, and \<^verbatim>\<open>..\<close> to its parent.
\<close>

definition path_resolve :: "string \<Rightarrow> string \<Rightarrow> string" where
  "path_resolve dir seg =
     (if seg = [] \<or> seg = ''.'' then dir
      else if seg = ''..'' then path_dirname dir
      else path_join dir seg)"

section \<open>Project context scanner\<close>

text \<open>
  What \<^verbatim>\<open>readdirSync(dir, { withFileTypes: true })\<close> enumerates: each entry has a name
  and is a directory (with its own entries), a regular file, or neither (a symbolic
  link, a socket, ...). The order of a list is the order of enumeration. Every
  directory of a tree can be read: a \<^verbatim>\<open>readdirSync\<close> that throws is not part of the model.
\<close>

datatype dirent = Directory string "dirent list" | RegularFile string | OtherEntry string

text \<open>The markers of the listing: U+1F4C1 and U+1F4C4, each followed by a space.\<close>

definition dirMarker :: string where
  "dirMarker = [CHR 0xF0, CHR 0x9F, CHR 0x93, CHR 0x81, CHR '' '']"

definition fileMarker :: string where
  "fileMarker = [CHR 0xF0, CHR 0x9F, CHR 0x93, CHR 0x84, CHR '' '']"

definition excludedDirs :: "string list" where
  "excludedDirs = [''node_modules'', ''.git'']"

definition isSource :: "string \<Rightarrow> bool" where
  "isSource name = (endsWith name ''.ts'' \<or> endsWith name ''.js'')"

text \<open>
  \<^verbatim>\<open>readDirRecursive(dir)\<close> (source lines 64-76). The array \<^verbatim>\<open>projectFiles\<close> it
  pushes to is threaded through as the last argument; the second argument is what
  \<^verbatim>\<open>readdirSync(dir)\<close> returned, consumed by \<^verbatim>\<open>forEach\<close> in order.
\<close>

fun readDirRecursive :: "string \<Rightarrow> dirent list \<Rightarrow> string list \<Rightarrow> string list" where
  "readDirRecursive dir [] projectFiles = projectFiles"
| "readDirRecursive dir (Directory name sub # items) projectFiles =
     (if name \<notin> set excludedDirs
      then readDirRecursive dir items
             (readDirRecursive (path_join dir name) sub
                (projectFiles @ [dirMarker @ path_join dir name]))
      else readDirRecursive dir items projectFiles)"
| "readDirRecursive dir (RegularFile name # items) projectFiles =
     (if isSource name
      then readDirRecursive dir items (projectFiles @ [fileMarker @ path_join dir name])
      else readDirRecursive dir items projectFiles)"
| "readDirRecursive dir (OtherEntry name # items) projectFiles =
     readDirRecursive dir items projectFiles"

text \<open>
  \<^verbatim>\<open>getProjectContext()\<close> (source lines 61-80), as a function of the resolved project
  root and of the entries found there.
\<close>

definition getProjectContext :: "string \<Rightarrow> dirent list \<Rightarrow> string" where
  "getProjectContext root items = join_nl (readDirRecursive root items [])"

text \<open>The name of a directory entry.\<close>

fun entry_name :: "dirent \<Rightarrow> string" where
  "entry_name (Directory name sub) = name"
| "entry_name (RegularFile name) = name"
| "entry_name (OtherEntry name) = name"

text \<open>
  \<open>visible dir items path ent\<close>: the entry \<open>ent\<close> sits at \<open>path\<close> beneath the directory
  \<open>dir\<close> with entries \<open>items\<close>, and every directory on the way from \<open>dir\<close> down to it
  (\<open>dir\<close> and \<open>ent\<close> themselves apart) has a name other than \<^verbatim>\<open>node_modules\<close> and
  \<^verbatim>\<open>.git\<close>.
\<close>

inductive visible :: "string \<Rightarrow> dirent list \<Rightarrow> string \<Rightarrow> dirent \<Rightarrow> bool" where
  here: "ent \<in> set items \<Longrightarrow> visible dir items (path_join dir (entry_name ent)) ent"
| below: "Directory name sub \<in> set items \<Longrightarrow> name \<notin> set excludedDirs \<Longrightarrow>
          visible (path_join dir name) sub path ent \<Longrightarrow> visible dir items path ent"

text \<open>
  The lines that the listing is to hold: the marked path of every visible directory
  whose own name is not excluded, and of every visible regular file whose name ends in
  \<^verbatim>\<open>.ts\<close> or \<^verbatim>\<open>.js\<close>.
\<close>

definition listed :: "string \<Rightarrow> dirent list \<Rightarrow> string \<Rightarrow> bool" where
  "listed dir items line \<longleftrightarrow>
     (\<exists>path name sub. line = dirMarker @ path \<and> visible dir items path (Directory name sub) \<and>
        name \<notin> set excludedDirs) \<or>
     (\<exists>path name. line = fileMarker @ path \<and> visible dir items path (RegularFile name) \<and>
        isSource name)"


section \<open>The outside world\<close>

text \<open>
  A JavaScript \<^verbatim>\<open>Error\<close>: its \<^verbatim>\<open>message\<close>, and the \<^verbatim>\<open>stderr\<close> property that the
  promisified \<^verbatim>\<open>exec\<close> attaches to its rejections (absent on any other error).
\<close>

datatype js_error = JsError (message: string) (stderr: "string option")

text \<open>How an awaited promise settles.\<close>

datatype 'a settled = Resolved 'a | Rejected js_error

text \<open>
  The response of the generative service, with every field that the source probes
  through \<^verbatim>\<open>?.\<close> optional (\<open>None\<close> is \<^verbatim>\<open>undefined\<close>).
\<close>

record executable_code =
  code :: "string option"

record part =
  part_text :: "string option"
  executableCode :: "executable_code option"

record content =
  parts :: "part list option"

record candidate =
  candidate_content :: "content option"

record response =
  candidates :: "candidate list option"

text \<open>What \<^verbatim>\<open>execPromise\<close> resolves to.\<close>

record exec_output =
  out_stdout :: string
  out_stderr :: string

text \<open>What \<^verbatim>\<open>executeTestScript\<close> returns.\<close>

record exec_result =
  success :: bool
  result_output :: string

text \<open>
  The console messages of the repair loop, one constructor per template of the source
  with the values it interpolates:
  \<^item> \<open>GeneratingTests fw\<close>: line 194, \<^verbatim>\<open>Generating tests for ${framework}...\<close>
  \<^item> \<open>ExecutingAttempt fw n\<close>: line 197, \<^verbatim>\<open>Executing [${framework}] test:: Attempt #${attempt + 1}...\<close>
  \<^item> \<open>ExecutedSuccessfully fw\<close>: line 207, \<^verbatim>\<open>[${framework}] Test script executed successfully.\<close>
  \<^item> \<open>ResultOutput s\<close>: line 208, \<^verbatim>\<open>console.log(result.output)\<close>
  \<^item> \<open>FailedOnAttempt fw n e\<close>: line 210, \<^verbatim>\<open>[${framework}] Script failed on attempt ${attempt + 1}. Error:\n${lastError}\<close>
  \<^item> \<open>AllAttemptsFailed fw n e\<close>: line 217, \<^verbatim>\<open>[${framework}] All ${MAX_ATTEMPTS} attempts failed. Last error:\n${lastError}\<close>
\<close>

datatype console_msg =
    GeneratingTests string
  | ExecutingAttempt string nat
  | ExecutedSuccessfully string
  | ResultOutput string
  | FailedOnAttempt string nat string
  | AllAttemptsFailed string nat string

text \<open>
  How a call of \<^verbatim>\<open>writeFileSync\<close> ends: it returns, or it throws (the path is a
  directory, the disk is full, ...) and leaves at the path whatever the failed write
  left there (\<open>None\<close>: no file).
\<close>

datatype write_outcome = Written | WriteThrew js_error "string option"

text \<open>
  Everything the agent does to the outside world, in the order it happens: a console
  line, one listing of a directory (its path), one request to the generative service
  (the texts of its two parts, and how the request settled), one write of a file (path,
  data, and how the call ended), one shell command (and how it settled).
\<close>

datatype event =
    ConsoleLog console_msg
  | ConsoleWarn console_msg
  | ConsoleError console_msg
  | ReaddirSync string
  | GenerateContent "string option list" "response option settled"
  | WriteFileSync string string write_outcome
  | ExecPromise string "exec_output settled"

record world =
  files :: "string \<rightharpoonup> string"
  log :: "event list"

text \<open>
  The environment of one run: the resolved project root (\<^verbatim>\<open>path.resolve(__dirname, '../')\<close>),
  the entries beneath it when the module is loaded, and the three external services. The
  generative service, the shell and the file system are not under \<^verbatim>\<open>src/\<close>; their
  answers may depend on everything that happened before (the world) and on the request.
\<close>

record env =
  projectRoot :: string
  rootEntries :: "dirent list"
  generateContent :: "world \<Rightarrow> string option list \<Rightarrow> response option settled"
  writeFile :: "world \<Rightarrow> string \<Rightarrow> string \<Rightarrow> write_outcome"
  execPromise :: "world \<Rightarrow> string \<Rightarrow> exec_output settled"

definition emit :: "event \<Rightarrow> world \<Rightarrow> world" where
  "emit ev w = w\<lparr>log := log w @ [ev]\<rparr>"

text \<open>
  \<^verbatim>\<open>writeFileSync(path, data)\<close>: when the call returns, the file is created or
  replaced; when it throws, the exception is the result (\<open>Inl\<close>).
\<close>

definition writeFileSync ::
  "env \<Rightarrow> string \<Rightarrow> string \<Rightarrow> world \<Rightarrow> (js_error + unit) \<times> world" where
  "writeFileSync e path data w =
     (case writeFile e w path data of
        Written \<Rightarrow>
          (Inr (), emit (WriteFileSync path data Written) (w\<lparr>files := (files w)(path \<mapsto> data)\<rparr>))
      | WriteThrew err left \<Rightarrow>
          (Inl err, emit (WriteFileSync path data (WriteThrew err left))
                      (w\<lparr>files := (files w)(path := left)\<rparr>)))"

section \<open>Project context scanner and the file system\<close>





section \<open>Constants of the agent\<close>

definition TESTDIR :: "env \<Rightarrow> string" where
  "TESTDIR e = path_join (projectRoot e) ''tests''"

definition OUTPUT_FILES :: "string \<rightharpoonup> string" where
  "OUTPUT_FILES =
     [''PLAYWRIGHT'' \<mapsto> ''google_navigation.playwright.spec.ts'',
      ''TESTCAFE'' \<mapsto> ''google_navigation.testcafe.ts'',
      ''SELENIUM'' \<mapsto> ''google_navigation.selenium.spec.cjs'']"

definition MAX_ATTEMPTS :: nat where
  "MAX_ATTEMPTS = 3"

text \<open>The part shared by the three templates (source lines 88-92, 96-100, 106-110).\<close>

definition promptContext :: "env \<Rightarrow> string \<Rightarrow> string" where
  "promptContext e file =
     ''Project Structure Context:'' @ NL @
     getProjectContext (projectRoot e) (rootEntries e) @ NL @ NL @
     ''Current working directory: '' @ TESTDIR e @ NL @
     ''Target output file: '' @ file @ NL @ NL"

definition commentsRule :: string where
  "commentsRule =
     ''Include meaningful inline comments to explain each step. The output should be code-only, with no explanation or description outside the code block. Also console log each test step.''"

definition basePrompts :: "env \<Rightarrow> string \<rightharpoonup> string" where
  "basePrompts e =
     [''PLAYWRIGHT'' \<mapsto>
        ''Generate an accurate and fully executable Playwright test script in TypeScript.'' @ NL @
        promptContext e ''google_navigation.playwright.spec.ts'' @
        commentsRule,
      ''TESTCAFE'' \<mapsto>
        ''Generate an accurate and fully executable in CLI TestCafe test script in TypeScript.'' @ NL @
        promptContext e ''google_navigation.testcafe.ts'' @
        commentsRule @ NL @ NL @
        ''also handle invisible elements and wait for them to be visible before interacting with them. handle unwanted popups and alerts gracefully.'',
      ''SELENIUM'' \<mapsto>
        ''Generate an accurate and fully executable Selenium WebDriver test script in JavaScript .'' @ NL @
        promptContext e ''google_navigation.selenium.spec.cjs'' @
        ''Use Selenium WebDriver with JavaScript (CommonJS). Use require() instead of import. The test should use mocha describe and it functions.'' @ NL @ NL @
        commentsRule @ NL @
        ''Handle popups and alerts gracefully. Wait for elements to be visible before interacting with them.'']"

definition userPrompt :: string where
  "userPrompt =
     ''Navigate to https://www.webpagetest.org/ and handle any popups, '' @ NL @
     ''wait for 2 seconds,'' @ NL @
     ''then navigate to thoughtworks.com and wait for 2 seconds,'' @ NL @
     ''then close the browser''"

text \<open>A value interpolated into a template literal: \<^verbatim>\<open>undefined\<close> prints as its name.\<close>

definition interpolate :: "string option \<Rightarrow> string" where
  "interpolate v = (case v of None \<Rightarrow> ''undefined'' | Some s \<Rightarrow> s)"

section \<open>Script synthesizer\<close>

text \<open>\<^verbatim>\<open>promptText\<close> (source lines 124-127). A string is truthy when it is not empty.\<close>

definition promptText :: "env \<Rightarrow> string \<Rightarrow> string \<Rightarrow> string option" where
  "promptText e framework errorContext =
     (if errorContext \<noteq> []
      then Some (interpolate (basePrompts e framework) @ NL @ NL @
                 ''The previous attempt failed with the following error:'' @ NL @
                 errorContext @ NL @
                 ''Please correct the code and regenerate.'')
      else basePrompts e framework)"

text \<open>\<^verbatim>\<open>response?.candidates?.[0]?.content?.parts || []\<close> (source line 146).\<close>

definition response_parts :: "response option \<Rightarrow> part list" where
  "response_parts r =
     (case r of
        None \<Rightarrow> []
      | Some resp \<Rightarrow>
          (case candidates resp of
             None \<Rightarrow> []
           | Some [] \<Rightarrow> []
           | Some (c # _) \<Rightarrow>
               (case candidate_content c of
                  None \<Rightarrow> []
                | Some ct \<Rightarrow> (case parts ct of None \<Rightarrow> [] | Some ps \<Rightarrow> ps))))"

definition codeFence :: string where
  "codeFence = [CHR 0x60, CHR 0x60, CHR 0x60]"

text \<open>\<^verbatim>\<open>part.text.split('\n').filter(line => !line.includes('```')).join('\n')\<close> (line 151).\<close>

definition cleaned :: "string \<Rightarrow> string" where
  "cleaned t = join_nl (filter (\<lambda>line. \<not> str_includes line codeFence) (split_nl t))"

text \<open>\<^verbatim>\<open>part.executableCode?.code\<close>.\<close>

definition part_code :: "part \<Rightarrow> string option" where
  "part_code p = (case executableCode p of None \<Rightarrow> None | Some ec \<Rightarrow> code ec)"

text \<open>
  The body of \<^verbatim>\<open>parts.forEach\<close> (source lines 150-155), from the value of \<^verbatim>\<open>output\<close>
  before the part to its value after it. An absent or empty \<^verbatim>\<open>text\<close> is falsy, and so
  is an absent or empty \<^verbatim>\<open>code\<close>.
\<close>

definition appendPart :: "string \<Rightarrow> part \<Rightarrow> string" where
  "appendPart out p =
     (case part_text p of
        Some (c # cs) \<Rightarrow> out @ cleaned (c # cs) @ NL
      | _ \<Rightarrow>
          (case part_code p of
             Some (d # ds) \<Rightarrow> out @ (d # ds) @ NL
           | _ \<Rightarrow> out))"

definition provenance :: string where
  "provenance = ''// *** This code is generated by AI Agent ***''"

text \<open>
  What \<^verbatim>\<open>generateTestScript\<close> returns for a response (source lines 146-158):
  \<^verbatim>\<open>forEach\<close> runs the body over the parts in order, from the empty \<^verbatim>\<open>output\<close>.
\<close>

definition scriptText :: "response option \<Rightarrow> string" where
  "scriptText resp = provenance @ NL @ NL @ foldl appendPart [] (response_parts resp)"

text \<open>
  \<^verbatim>\<open>generateTestScript(framework, errorContext)\<close> (source lines 123-159). A rejected
  request is an exception of the function: \<open>Inl\<close>.
\<close>

definition generateTestScript ::
  "env \<Rightarrow> string \<Rightarrow> string \<Rightarrow> world \<Rightarrow> (js_error + string) \<times> world" where
  "generateTestScript e framework errorContext w =
     (let request = [promptText e framework errorContext, Some userPrompt];
          settled = generateContent e w request;
          w' = emit (GenerateContent request settled) w
      in case settled of
           Rejected err \<Rightarrow> (Inl err, w')
         | Resolved resp \<Rightarrow> (Inr (scriptText resp), w'))"

section \<open>Script runner\<close>

text \<open>The \<^verbatim>\<open>switch\<close> of source lines 166-180; the \<^verbatim>\<open>default\<close> case throws.\<close>

definition runCommand :: "env \<Rightarrow> string \<Rightarrow> string \<Rightarrow> js_error + string" where
  "runCommand e framework filePath =
     (let absolutePath = path_resolve (TESTDIR e) (path_basename filePath)
      in if framework = ''PLAYWRIGHT'' then Inr (''npx playwright test '' @ path_basename filePath)
         else if framework = ''TESTCAFE'' then Inr (''npx testcafe chrome '' @ path_basename filePath)
         else if framework = ''SELENIUM'' then Inr (''npx mocha '' @ [CHR 0x22] @ absolutePath @ [CHR 0x22])
         else Inl (JsError (''Unknown framework: '' @ framework) None))"

text \<open>The line given to the shell (source line 181).\<close>

definition shellLine :: "env \<Rightarrow> string \<Rightarrow> string" where
  "shellLine e command = ''cd '' @ TESTDIR e @ '' && '' @ command"

text \<open>The \<^verbatim>\<open>try\<close> block of \<^verbatim>\<open>executeTestScript\<close> (source lines 163-182).\<close>

definition executeTestScript_try ::
  "env \<Rightarrow> string \<Rightarrow> string \<Rightarrow> world \<Rightarrow> (js_error + exec_result) \<times> world" where
  "executeTestScript_try e framework filePath w =
     (case runCommand e framework filePath of
        Inl err \<Rightarrow> (Inl err, w)
      | Inr command \<Rightarrow>
          (let line = shellLine e command;
               settled = execPromise e w line;
               w' = emit (ExecPromise line settled) w
           in case settled of
                Rejected err \<Rightarrow> (Inl err, w')
              | Resolved out \<Rightarrow> (Inr \<lparr>success = True, result_output = out_stdout out\<rparr>, w')))"

text \<open>\<^verbatim>\<open>err.stderr || err.message\<close> (source line 184).\<close>

definition caught_output :: "js_error \<Rightarrow> string" where
  "caught_output err = (case stderr err of Some (c # cs) \<Rightarrow> c # cs | _ \<Rightarrow> message err)"

text \<open>\<^verbatim>\<open>executeTestScript(framework, filePath)\<close> (source lines 161-186).\<close>

definition executeTestScript ::
  "env \<Rightarrow> string \<Rightarrow> string \<Rightarrow> world \<Rightarrow> (js_error + exec_result) \<times> world" where
  "executeTestScript e framework filePath w =
     (case executeTestScript_try e framework filePath w of
        (Inl err, w') \<Rightarrow> (Inr \<lparr>success = False, result_output = caught_output err\<rparr>, w')
      | (Inr r, w') \<Rightarrow> (Inr r, w'))"

section \<open>Repair loop controller\<close>

text \<open>
  The \<^verbatim>\<open>while\<close> loop of \<^verbatim>\<open>generateAndDebug\<close> (source lines 196-214), from the values
  of \<^verbatim>\<open>attempt\<close>, \<^verbatim>\<open>success\<close> and \<^verbatim>\<open>lastError\<close> at the loop head to their values at the
  exit. An exception inside the body leaves the loop: \<open>Inl\<close>.
\<close>

function generateAndDebug_loop ::
  "env \<Rightarrow> string \<Rightarrow> string \<Rightarrow> nat \<Rightarrow> bool \<Rightarrow> string \<Rightarrow> world
     \<Rightarrow> (js_error + nat \<times> bool \<times> string) \<times> world" where
  "generateAndDebug_loop e framework outputPath attempt succ lastError w =
     (if attempt < MAX_ATTEMPTS \<and> \<not> succ then
        (let w1 = emit (ConsoleLog (ExecutingAttempt framework (Suc attempt))) w
         in case generateTestScript e framework lastError w1 of
              (Inl err, w2) \<Rightarrow> (Inl err, w2)
            | (Inr script, w2) \<Rightarrow>
                (case writeFileSync e outputPath script w2 of
                   (Inl err, w3) \<Rightarrow> (Inl err, w3)
                 | (Inr _, w3) \<Rightarrow>
                     (case executeTestScript e framework outputPath w3 of
                        (Inl err, w4) \<Rightarrow> (Inl err, w4)
                      | (Inr result, w4) \<Rightarrow>
                          (let w5 =
                                 (if success result
                                  then emit (ConsoleLog (ResultOutput (result_output result)))
                                         (emit (ConsoleLog (ExecutedSuccessfully framework)) w4)
                                  else emit (ConsoleWarn (FailedOnAttempt framework (Suc attempt)
                                               (result_output result))) w4)
                           in generateAndDebug_loop e framework outputPath (Suc attempt)
                                (success result) (result_output result) w5))))
      else (Inr (attempt, succ, lastError), w))"
  by pat_completeness auto
termination
  by (relation "measure (\<lambda>(e, framework, outputPath, attempt, succ, lastError, w).
        MAX_ATTEMPTS - attempt)") auto

text \<open>
  \<^verbatim>\<open>path.join(TESTDIR, undefined)\<close> throws this \<^verbatim>\<open>TypeError\<close>: the framework is not a
  key of \<^verbatim>\<open>OUTPUT_FILES\<close>.
\<close>

definition pathTypeError :: js_error where
  "pathTypeError =
     JsError (''The '' @ [CHR 0x22] @ ''path'' @ [CHR 0x22] @
              '' argument must be of type string. Received undefined'') None"

text \<open>\<^verbatim>\<open>generateAndDebug(framework)\<close> (source lines 188-219).\<close>

definition generateAndDebug :: "env \<Rightarrow> string \<Rightarrow> world \<Rightarrow> (js_error + unit) \<times> world" where
  "generateAndDebug e framework w =
     (case OUTPUT_FILES framework of
        None \<Rightarrow> (Inl pathTypeError, w)
      | Some file \<Rightarrow>
          (let outputPath = path_join (TESTDIR e) file;
               w1 = emit (ConsoleLog (GeneratingTests framework)) w
           in case generateAndDebug_loop e framework outputPath 0 False [] w1 of
                (Inl err, w2) \<Rightarrow> (Inl err, w2)
              | (Inr (attempt, succ, lastError), w2) \<Rightarrow>
                  (Inr (),
                   if \<not> succ
                   then emit (ConsoleError (AllAttemptsFailed framework MAX_ATTEMPTS lastError)) w2
                   else w2)))"

section \<open>Multi-framework driver\<close>

text \<open>\<^verbatim>\<open>generateAll()\<close> (source lines 221-225): an exception ends the sequence.\<close>

definition generateAll :: "env \<Rightarrow> world \<Rightarrow> (js_error + unit) \<times> world" where
  "generateAll e w =
     (case generateAndDebug e ''PLAYWRIGHT'' w of
        (Inl err, w1) \<Rightarrow> (Inl err, w1)
      | (Inr _, w1) \<Rightarrow>
          (case generateAndDebug e ''TESTCAFE'' w1 of
             (Inl err, w2) \<Rightarrow> (Inl err, w2)
           | (Inr _, w2) \<Rightarrow> generateAndDebug e ''SELENIUM'' w2))"

section \<open>Observing a run\<close>

text \<open>The events a computation added to the log, from the world before and after it.\<close>

definition new_events :: "world \<Rightarrow> world \<Rightarrow> event list" where
  "new_events w w' = drop (length (log w)) (log w')"

fun is_request :: "event \<Rightarrow> bool" where
  "is_request (GenerateContent req s) = True"
| "is_request ev = False"

fun is_write :: "event \<Rightarrow> bool" where
  "is_write (WriteFileSync path data outcome) = True"
| "is_write ev = False"

fun is_command :: "event \<Rightarrow> bool" where
  "is_command (ExecPromise line s) = True"
| "is_command ev = False"

text \<open>The exception that an event throws into the caller, if it throws one.\<close>

fun thrown_by :: "event \<Rightarrow> js_error option" where
  "thrown_by (GenerateContent req (Rejected err)) = Some err"
| "thrown_by (WriteFileSync path data (WriteThrew err left)) = Some err"
| "thrown_by ev = None"

text \<open>The frameworks whose repair loop was entered, in order (the console line of source line 194).\<close>

fun loops_started :: "event list \<Rightarrow> string list" where
  "loops_started [] = []"
| "loops_started (ConsoleLog (GeneratingTests fw) # evs) = fw # loops_started evs"
| "loops_started (ev # evs) = loops_started evs"

text \<open>The files after the writes of a trace, from the files before it.\<close>

fun replay :: "event list \<Rightarrow> (string \<rightharpoonup> string) \<Rightarrow> (string \<rightharpoonup> string)" where
  "replay [] fs = fs"
| "replay (WriteFileSync path data Written # evs) fs = replay evs (fs(path \<mapsto> data))"
| "replay (WriteFileSync path data (WriteThrew err left) # evs) fs =
     replay evs (fs(path := left))"
| "replay (ev # evs) fs = replay evs fs"

text \<open>
  The traces of the loop that starts attempt \<open>n\<close> (counted from 0; \<open>Suc n\<close> is \<^verbatim>\<open>attempt + 1\<close>) with \<open>lastError = le\<close>
  and \<open>success = false\<close>, each with what the loop ends in: the loop is over, the request
  is rejected, the write throws, the command succeeds, or the command fails and the
  loop goes on.
\<close>

inductive loop_trace ::
  "env \<Rightarrow> string \<Rightarrow> string \<Rightarrow> string \<Rightarrow> nat \<Rightarrow> string \<Rightarrow> event list
     \<Rightarrow> (js_error + nat \<times> bool \<times> string) \<Rightarrow> bool"
  for e :: env and fw :: string and outputPath :: string and line :: string where
  exhausted:
    "\<not> n < MAX_ATTEMPTS \<Longrightarrow> loop_trace e fw outputPath line n le [] (Inr (n, False, le))"
| generation_rejected:
    "n < MAX_ATTEMPTS \<Longrightarrow>
     loop_trace e fw outputPath line n le
       [ConsoleLog (ExecutingAttempt fw (Suc n)),
        GenerateContent [promptText e fw le, Some userPrompt] (Rejected err)]
       (Inl err)"
| write_threw:
    "n < MAX_ATTEMPTS \<Longrightarrow>
     loop_trace e fw outputPath line n le
       [ConsoleLog (ExecutingAttempt fw (Suc n)),
        GenerateContent [promptText e fw le, Some userPrompt] (Resolved resp),
        WriteFileSync outputPath (scriptText resp) (WriteThrew err left)]
       (Inl err)"
| run_succeeded:
    "n < MAX_ATTEMPTS \<Longrightarrow>
     loop_trace e fw outputPath line n le
       [ConsoleLog (ExecutingAttempt fw (Suc n)),
        GenerateContent [promptText e fw le, Some userPrompt] (Resolved resp),
        WriteFileSync outputPath (scriptText resp) Written,
        ExecPromise line (Resolved out),
        ConsoleLog (ExecutedSuccessfully fw),
        ConsoleLog (ResultOutput (out_stdout out))]
       (Inr (Suc n, True, out_stdout out))"
| run_failed:
    "n < MAX_ATTEMPTS \<Longrightarrow>
     loop_trace e fw outputPath line (Suc n) (caught_output err) rest r \<Longrightarrow>
     loop_trace e fw outputPath line n le
       (ConsoleLog (ExecutingAttempt fw (Suc n)) #
        GenerateContent [promptText e fw le, Some userPrompt] (Resolved resp) #
        WriteFileSync outputPath (scriptText resp) Written #
        ExecPromise line (Rejected err) #
        ConsoleWarn (FailedOnAttempt fw (Suc n) (caught_output err)) # rest)
       r"

section \<open>Sample runs\<close>

text \<open>Concrete worlds and environments, on which the theorems below are instantiated.\<close>

definition emptyWorld :: world where
  "emptyWorld = \<lparr>files = Map.empty, log = []\<rparr>"

definition sampleTree :: "dirent list" where
  "sampleTree =
     [Directory ''tests'' [],
      Directory ''utility'' [RegularFile ''ai_agent.js'', RegularFile ''notes.md''],
      Directory ''node_modules'' [Directory ''pkg'' [RegularFile ''index.ts'']],
      RegularFile ''package.json'']"

definition textPart :: "string \<Rightarrow> part" where
  "textPart t = \<lparr>part_text = Some t, executableCode = None\<rparr>"

definition codePart :: "string \<Rightarrow> part" where
  "codePart c = \<lparr>part_text = None, executableCode = Some \<lparr>code = Some c\<rparr>\<rparr>"

definition responseOf :: "part list \<Rightarrow> response option" where
  "responseOf ps =
     Some \<lparr>candidates = Some [\<lparr>candidate_content = Some \<lparr>parts = Some ps\<rparr>\<rparr>]\<rparr>"

text \<open>
  A response of four parts: a text whose first and last lines are code fences and whose
  middle line holds single backticks, executable code, a text without a fence, and a
  part with neither field.
\<close>

definition sampleResponse :: "response option" where
  "sampleResponse =
     responseOf
       [textPart (codeFence @ ''ts'' @ NL @ ''test('' @ [CHR 0x60] @ ''x'' @ [CHR 0x60] @ '')'' @
                  NL @ codeFence),
        codePart ''done()'',
        textPart ''// end'',
        \<lparr>part_text = None, executableCode = None\<rparr>]"

text \<open>
  The first command fails with a timeout on standard error, and every later one exits
  zero.
\<close>

definition timeoutEnv :: env where
  "timeoutEnv =
     \<lparr>projectRoot = ''/repo'',
      rootEntries = sampleTree,
      generateContent = (\<lambda>w request. Resolved sampleResponse),
      writeFile = (\<lambda>w path data. Written),
      execPromise = (\<lambda>w line.
        if filter is_command (log w) = []
        then Rejected (JsError ''Command failed'' (Some ''Timeout 30000ms exceeded''))
        else Resolved \<lparr>out_stdout = ''1 passed'', out_stderr = []\<rparr>)\<rparr>"

text \<open>Every command fails, with nothing on standard error.\<close>

definition failingEnv :: env where
  "failingEnv =
     \<lparr>projectRoot = ''/repo'',
      rootEntries = sampleTree,
      generateContent = (\<lambda>w request. Resolved sampleResponse),
      writeFile = (\<lambda>w path data. Written),
      execPromise = (\<lambda>w line. Rejected (JsError ''Command failed'' (Some [])))\<rparr>"

text \<open>
  Every command fails, and the generative service returns a different script on each
  request: \<^verbatim>\<open>one()\<close>, then \<^verbatim>\<open>two()\<close>, then \<^verbatim>\<open>three()\<close>.
\<close>

definition changingEnv :: env where
  "changingEnv =
     \<lparr>projectRoot = ''/repo'',
      rootEntries = sampleTree,
      generateContent = (\<lambda>w request.
        Resolved (responseOf
          [codePart (if length (filter is_request (log w)) = 0 then ''one()''
                     else if length (filter is_request (log w)) = 1 then ''two()''
                     else ''three()'')])),
      writeFile = (\<lambda>w path data. Written),
      execPromise = (\<lambda>w line. Rejected (JsError ''Command failed'' (Some ''1 failing'')))\<rparr>"

text \<open>The generative service rejects every request.\<close>

definition rejectingEnv :: env where
  "rejectingEnv =
     \<lparr>projectRoot = ''/repo'',
      rootEntries = sampleTree,
      generateContent = (\<lambda>w request. Rejected (JsError ''429 quota exceeded'' None)),
      writeFile = (\<lambda>w path data. Written),
      execPromise = (\<lambda>w line. Resolved \<lparr>out_stdout = ''1 passed'', out_stderr = []\<rparr>)\<rparr>"

text \<open>
  The first request is answered with the script \<^verbatim>\<open>one()\<close>, whose command fails; the
  second request is rejected.
\<close>

definition abortingEnv :: env where
  "abortingEnv =
     \<lparr>projectRoot = ''/repo'',
      rootEntries = sampleTree,
      generateContent = (\<lambda>w request.
        if filter is_request (log w) = [] then Resolved (responseOf [codePart ''one()''])
        else Rejected (JsError ''503 unavailable'' None)),
      writeFile = (\<lambda>w path data. Written),
      execPromise = (\<lambda>w line. Rejected (JsError ''Command failed'' (Some ''1 failing'')))\<rparr>"

text \<open>
  The generative service answers with no candidate, and the output path cannot be
  written: the write throws and leaves no file.
\<close>

definition readonlyEnv :: env where
  "readonlyEnv =
     \<lparr>projectRoot = ''/repo'',
      rootEntries = sampleTree,
      generateContent = (\<lambda>w request. Resolved (Some \<lparr>candidates = Some []\<rparr>)),
      writeFile = (\<lambda>w path data.
        WriteThrew (JsError ''EISDIR: illegal operation on a directory, open'' None) None),
      execPromise = (\<lambda>w line. Resolved \<lparr>out_stdout = ''1 passed'', out_stderr = []\<rparr>)\<rparr>"

text \<open>The generative service answers with no candidate.\<close>

definition silentEnv :: env where
  "silentEnv =
     \<lparr>projectRoot = ''/repo'',
      rootEntries = sampleTree,
      generateContent = (\<lambda>w request. Resolved (Some \<lparr>candidates = Some []\<rparr>)),
      writeFile = (\<lambda>w path data. Written),
      execPromise = (\<lambda>w line. Rejected (JsError ''Command failed'' (Some ''No tests found'')))\<rparr>"

section \<open>The trace of the repair loop\<close>

lemma log_emit [simp]: "log (emit ev w) = log w @ [ev]"
  and files_emit [simp]: "files (emit ev w) = files w"
  by (simp_all add: emit_def)

lemma writeFileSync_cases:
  assumes "writeFileSync e p d w = (r, w')"
  obtains (threw) err left where "r = Inl err"
      "w' = emit (WriteFileSync p d (WriteThrew err left)) (w\<lparr>files := (files w)(p := left)\<rparr>)"
    | (written) "r = Inr ()"
      "w' = emit (WriteFileSync p d Written) (w\<lparr>files := (files w)(p \<mapsto> d)\<rparr>)"
  using assms by (auto simp: writeFileSync_def split: write_outcome.splits)

lemma replay_append [simp]: "replay (xs @ ys) fs = replay ys (replay xs fs)"
proof (induction xs arbitrary: fs)
  case Nil
  show ?case by simp
next
  case (Cons x xs)
  show ?case
  proof (cases x)
    case (WriteFileSync path data outcome)
    with Cons show ?thesis by (cases outcome) (simp_all add: fun_upd_def)
  qed (simp_all add: Cons)
qed

lemma generateTestScript_cases:
  assumes "generateTestScript e fw le w = (r, w')"
  obtains (rejected) err where "r = Inl err"
      "w' = emit (GenerateContent [promptText e fw le, Some userPrompt] (Rejected err)) w"
    | (resolved) resp where "r = Inr (scriptText resp)"
      "w' = emit (GenerateContent [promptText e fw le, Some userPrompt] (Resolved resp)) w"
  using assms by (auto simp: generateTestScript_def Let_def split: settled.splits)

lemma executeTestScript_cases:
  assumes "executeTestScript e fw p w = (r, w')" and "runCommand e fw p = Inr cmd"
  obtains (failed) err where "r = Inr \<lparr>success = False, result_output = caught_output err\<rparr>"
      "w' = emit (ExecPromise (shellLine e cmd) (Rejected err)) w"
    | (passed) out where "r = Inr \<lparr>success = True, result_output = out_stdout out\<rparr>"
      "w' = emit (ExecPromise (shellLine e cmd) (Resolved out)) w"
  using assms
  by (auto simp: executeTestScript_def executeTestScript_try_def Let_def split: settled.splits)

lemma loop_done [simp]:
  "generateAndDebug_loop e fw p n True le w = (Inr (n, True, le), w)"
  "\<not> n < MAX_ATTEMPTS \<Longrightarrow> generateAndDebug_loop e fw p n s le w = (Inr (n, s, le), w)"
  by simp_all

declare generateAndDebug_loop.simps [simp del]

lemma loop_trace_of_loop:
  assumes "runCommand e fw p = Inr cmd"
  shows "generateAndDebug_loop e fw p n False le w = (r, w') \<Longrightarrow>
     \<exists>evs. log w' = log w @ evs \<and> files w' = replay evs (files w) \<and>
           loop_trace e fw p (shellLine e cmd) n le evs r"
proof (induction "MAX_ATTEMPTS - n" arbitrary: n le w)
  case 0
  then have "\<not> n < MAX_ATTEMPTS" by simp
  with 0 show ?case by (auto intro: loop_trace.exhausted)
next
  case (Suc k)
  then have n: "n < MAX_ATTEMPTS" by simp
  define w1 where "w1 = emit (ConsoleLog (ExecutingAttempt fw (Suc n))) w"
  obtain g w2 where gen: "generateTestScript e fw le w1 = (g, w2)" by force
  show ?case
  using gen proof (cases rule: generateTestScript_cases)
    case (rejected err)
    with Suc.prems n gen have "r = Inl err" "w' = w2"
      by (simp_all add: generateAndDebug_loop.simps[of e fw p n False] w1_def)
    with rejected n show ?thesis
      by (auto simp: w1_def intro: loop_trace.generation_rejected)
  next
    case (resolved resp)
    obtain wr w3 where wrt: "writeFileSync e p (scriptText resp) w2 = (wr, w3)" by force
    show ?thesis
    using wrt proof (cases rule: writeFileSync_cases)
      case (threw err left)
      with Suc.prems n gen resolved wrt have "r = Inl err" "w' = w3"
        by (simp_all add: generateAndDebug_loop.simps[of e fw p n False] w1_def)
      with threw resolved loop_trace.write_threw[OF n, of e fw p "shellLine e cmd" le resp err left]
      show ?thesis by (auto simp: w1_def)
    next
      case written
      obtain x w4 where ex: "executeTestScript e fw p w3 = (x, w4)" by force
      show ?thesis
      using ex assms proof (cases rule: executeTestScript_cases)
        case (failed err)
        let ?w5 = "emit (ConsoleWarn (FailedOnAttempt fw (Suc n) (caught_output err))) w4"
        from Suc.prems n gen resolved wrt written ex failed
        have loop: "generateAndDebug_loop e fw p (Suc n) False (caught_output err) ?w5 = (r, w')"
          by (simp add: generateAndDebug_loop.simps[of e fw p n False] w1_def)
        have "k = MAX_ATTEMPTS - (Suc n)" using Suc.hyps(2) by simp
        from Suc.hyps(1)[OF this loop] obtain evs where
          evs: "log w' = log ?w5 @ evs" "files w' = replay evs (files ?w5)"
            "loop_trace e fw p (shellLine e cmd) (Suc n) (caught_output err) evs r"
          by blast
        from loop_trace.run_failed[OF n evs(3), of le resp] evs(1,2) resolved written failed
        show ?thesis by (auto simp: w1_def)
      next
        case (passed out)
        with Suc.prems n gen resolved wrt written ex
        have "r = Inr (Suc n, True, out_stdout out)"
          "w' = emit (ConsoleLog (ResultOutput (out_stdout out)))
                  (emit (ConsoleLog (ExecutedSuccessfully fw)) w4)"
          by (simp_all add: generateAndDebug_loop.simps[of e fw p n False] w1_def)
        with passed resolved written
          loop_trace.run_succeeded[OF n, of e fw p "shellLine e cmd" le resp out]
        show ?thesis by (auto simp: w1_def)
      qed
    qed
  qed
qed

lemma loop_trace_counts:
  "loop_trace e fw p line n le evs r \<Longrightarrow>
     length (filter is_request evs) \<le> MAX_ATTEMPTS - n \<and>
     length (filter is_write evs) \<le> MAX_ATTEMPTS - n \<and>
     length (filter is_command evs) \<le> MAX_ATTEMPTS - n"
  by (induction rule: loop_trace.induct) auto

lemma loop_trace_head:
  assumes "loop_trace e fw p line n le evs r"
  shows "evs = [] \<or>
     (\<exists>s rest. evs = ConsoleLog (ExecutingAttempt fw (Suc n)) #
        GenerateContent [promptText e fw le, Some userPrompt] s # rest)"
  using assms by cases auto

lemma loop_trace_success:
  "loop_trace e fw p line n le evs r \<Longrightarrow>
   evs = pre @ ExecPromise l (Resolved out) # post \<Longrightarrow>
     post = [ConsoleLog (ExecutedSuccessfully fw), ConsoleLog (ResultOutput (out_stdout out))] \<and>
     r = Inr (n + Suc (length (filter is_command pre)), True, out_stdout out) \<and>
     length (filter is_request pre) = Suc (length (filter is_command pre)) \<and>
     length (filter is_write pre) = Suc (length (filter is_command pre)) \<and>
     n + Suc (length (filter is_command pre)) \<le> MAX_ATTEMPTS"
proof (induction arbitrary: pre rule: loop_trace.induct)
  case (exhausted n le)
  then show ?case by simp
next
  case (generation_rejected n le err)
  then show ?case by (auto simp: Cons_eq_append_conv)
next
  case (write_threw n le resp err left)
  then show ?case by (auto simp: Cons_eq_append_conv)
next
  case (run_succeeded n le resp out')
  then show ?case by (auto simp: Cons_eq_append_conv)
next
  case (run_failed n err rest r le resp)
  from run_failed.prems obtain pre' where
    pre: "pre = ConsoleLog (ExecutingAttempt fw (Suc n)) #
        GenerateContent [promptText e fw le, Some userPrompt] (Resolved resp) #
        WriteFileSync p (scriptText resp) Written # ExecPromise line (Rejected err) #
        ConsoleWarn (FailedOnAttempt fw (Suc n) (caught_output err)) # pre'"
    and rest: "rest = pre' @ ExecPromise l (Resolved out) # post"
    by (auto simp: Cons_eq_append_conv)
  from run_failed.IH[OF rest] show ?case by (simp add: pre)
qed

lemma loop_trace_failure:
  "loop_trace e fw p line n le evs r \<Longrightarrow>
   evs = pre @ ExecPromise l (Rejected err) # post \<Longrightarrow>
     (\<exists>rest. post = ConsoleWarn (FailedOnAttempt fw (n + Suc (length (filter is_command pre)))
                        (caught_output err)) # rest \<and>
        (rest = [] \<and> r = Inr (MAX_ATTEMPTS, False, caught_output err) \<and>
           n + Suc (length (filter is_command pre)) = MAX_ATTEMPTS \<or>
         (\<exists>s rest'. rest =
            ConsoleLog (ExecutingAttempt fw (Suc (n + Suc (length (filter is_command pre))))) #
            GenerateContent [promptText e fw (caught_output err), Some userPrompt] s # rest')))"
proof (induction arbitrary: pre rule: loop_trace.induct)
  case (exhausted n le)
  then show ?case by simp
next
  case (generation_rejected n le err')
  then show ?case by (auto simp: Cons_eq_append_conv)
next
  case (write_threw n le resp err' left)
  then show ?case by (auto simp: Cons_eq_append_conv)
next
  case (run_succeeded n le resp out')
  then show ?case by (auto simp: Cons_eq_append_conv)
next
  case (run_failed n err' rest r le resp)
  let ?hd = "[ConsoleLog (ExecutingAttempt fw (Suc n)),
        GenerateContent [promptText e fw le, Some userPrompt] (Resolved resp),
        WriteFileSync p (scriptText resp) Written]"
  from run_failed.prems consider
    (here) "pre = ?hd" "err = err'"
      "post = ConsoleWarn (FailedOnAttempt fw (Suc n) (caught_output err')) # rest"
  | (later) pre' where "pre = ?hd @ ExecPromise line (Rejected err') #
        ConsoleWarn (FailedOnAttempt fw (Suc n) (caught_output err')) # pre'"
      "rest = pre' @ ExecPromise l (Rejected err) # post"
    by (auto simp: Cons_eq_append_conv)
  then show ?case
  proof cases
    case here
    from run_failed.hyps(2) show ?thesis
    proof (cases rule: loop_trace.cases)
      case exhausted
      with run_failed.hyps(1) have "Suc n = MAX_ATTEMPTS" by simp
      with here exhausted show ?thesis by simp
    qed (use here in auto)
  next
    case later
    from run_failed.IH[OF later(2)] show ?thesis by (simp add: later(1))
  qed
qed


lemma loop_trace_other_paths:
  "loop_trace e fw p line n le evs r \<Longrightarrow> q \<noteq> p \<Longrightarrow> replay evs fs q = fs q"
  by (induction arbitrary: fs rule: loop_trace.induct) auto

lemma replay_no_write: "filter is_write evs = [] \<Longrightarrow> replay evs fs = fs"
  by (induction evs fs rule: replay.induct) auto

lemma replay_at_last_write:
  "filter is_write evs \<noteq> [] \<Longrightarrow> last (filter is_write evs) = WriteFileSync q d outcome \<Longrightarrow>
     replay evs fs q = (case outcome of Written \<Rightarrow> Some d | WriteThrew err left \<Rightarrow> left)"
proof (induction evs arbitrary: fs)
  case Nil
  then show ?case by simp
next
  case (Cons ev evs)
  show ?case
  proof (cases "filter is_write evs = []")
    case True
    show ?thesis
    proof (cases ev)
      case (WriteFileSync path data outcome')
      with True Cons.prems show ?thesis
        by (cases outcome') (auto simp: replay_no_write)
    qed (use True Cons.prems in simp_all)
  next
    case False
    with Cons.prems have l: "last (filter is_write evs) = WriteFileSync q d outcome"
      by (cases ev) simp_all
    show ?thesis
    proof (cases ev)
      case (WriteFileSync path data outcome')
      with Cons.IH[OF False l] show ?thesis by (cases outcome') simp_all
    qed (use Cons.IH[OF False l] in simp_all)
  qed
qed

lemma loop_trace_writes:
  "loop_trace e fw p line n le evs r \<Longrightarrow> ev \<in> set evs \<Longrightarrow> is_write ev \<Longrightarrow>
     \<exists>d outcome. ev = WriteFileSync p d outcome"
  by (induction rule: loop_trace.induct) auto

lemma loop_trace_thrown:
  "loop_trace e fw p line n le evs r \<Longrightarrow>
     (r = Inl err \<longleftrightarrow> evs \<noteq> [] \<and> thrown_by (last evs) = Some err) \<and>
     (evs = pre @ ev # post \<and> thrown_by ev = Some err \<longrightarrow> post = [] \<and> r = Inl err)"
proof (induction arbitrary: pre rule: loop_trace.induct)
  case (run_failed n err' rest r le resp)
  let ?hd = "[ConsoleLog (ExecutingAttempt fw (Suc n)),
        GenerateContent [promptText e fw le, Some userPrompt] (Resolved resp),
        WriteFileSync p (scriptText resp) Written,
        ExecPromise line (Rejected err'),
        ConsoleWarn (FailedOnAttempt fw (Suc n) (caught_output err'))]"
  have last: "r = Inl err \<longleftrightarrow> ?hd @ rest \<noteq> [] \<and> thrown_by (last (?hd @ rest)) = Some err"
  proof (cases "rest = []")
    case True
    with run_failed.hyps(2) have "\<exists>x. r = Inr x" by cases auto
    with True show ?thesis by auto
  next
    case False
    with run_failed.IH[of pre] show ?thesis by simp
  qed
  have mid: "post = [] \<and> r = Inl err"
    if "?hd @ rest = pre @ ev # post" "thrown_by ev = Some err"
  proof -
    from that obtain pre' where "rest = pre' @ ev # post"
      by (auto simp: Cons_eq_append_conv)
    with run_failed.IH[of pre'] that(2) show ?thesis by simp
  qed
  from last mid show ?case by simp
qed (auto simp: Cons_eq_append_conv append_eq_Cons_conv)

lemma loop_trace_last_write:
  assumes "loop_trace e fw p line n le evs r" and "filter is_write evs \<noteq> []"
  shows "\<exists>d outcome. last (filter is_write evs) = WriteFileSync p d outcome \<and>
     replay evs fs p = (case outcome of Written \<Rightarrow> Some d | WriteThrew err left \<Rightarrow> left)"
proof -
  from assms(2) have "last (filter is_write evs) \<in> set (filter is_write evs)"
    by (rule last_in_set)
  then have "last (filter is_write evs) \<in> set evs" "is_write (last (filter is_write evs))"
    by simp_all
  from loop_trace_writes[OF assms(1) this] obtain d outcome where
    d: "last (filter is_write evs) = WriteFileSync p d outcome" by blast
  from replay_at_last_write[OF assms(2) d] d show ?thesis by blast
qed

lemma loop_trace_returns:
  "loop_trace e fw p line n le evs r \<Longrightarrow> n < MAX_ATTEMPTS \<Longrightarrow> r = Inr x \<Longrightarrow>
     \<exists>req resp. filter is_request evs \<noteq> [] \<and>
        last (filter is_request evs) = GenerateContent req (Resolved resp) \<and>
        filter is_write evs \<noteq> [] \<and>
        last (filter is_write evs) = WriteFileSync p (scriptText resp) Written \<and>
        length (filter is_write evs) = length (filter is_request evs) \<and>
        length (filter is_command evs) = length (filter is_request evs)"
proof (induction rule: loop_trace.induct)
  case (run_failed n err rest r le resp)
  show ?case
  proof (cases "Suc n < MAX_ATTEMPTS")
    case True
    from run_failed.IH[OF True run_failed.prems(2)] show ?thesis by auto
  next
    case False
    from run_failed.hyps(2) have "rest = []"
      using False by cases auto
    then show ?thesis by simp
  qed
qed auto

lemma loop_trace_not_exhausted:
  "loop_trace e fw p line n le evs r \<Longrightarrow> n \<le> MAX_ATTEMPTS \<Longrightarrow> r = Inr (k, False, le') \<Longrightarrow>
     k = MAX_ATTEMPTS"
  by (induction rule: loop_trace.induct) auto

lemma OUTPUT_FILES_dom: "dom OUTPUT_FILES = {''PLAYWRIGHT'', ''TESTCAFE'', ''SELENIUM''}"
  by (auto simp: OUTPUT_FILES_def split: if_splits)

lemma runCommand_known:
  assumes "OUTPUT_FILES fw = Some file"
  shows "\<exists>cmd. runCommand e fw p = Inr cmd"
proof -
  from assms have "fw \<in> dom OUTPUT_FILES" by blast
  then show ?thesis unfolding OUTPUT_FILES_dom by (auto simp: runCommand_def Let_def)
qed

lemma generateAndDebug_unknown:
  "OUTPUT_FILES fw = None \<Longrightarrow> generateAndDebug e fw w = (Inl pathTypeError, w)"
  by (simp add: generateAndDebug_def)

lemma generateAndDebug_trace:
  assumes "OUTPUT_FILES fw = Some file" and "generateAndDebug e fw w = (r, w')"
  obtains evs lr line tail where
    "loop_trace e fw (path_join (TESTDIR e) file) line 0 [] evs lr"
    "log w' = log w @ ConsoleLog (GeneratingTests fw) # evs @ tail"
    "files w' = replay evs (files w)"
    "(\<exists>err. lr = Inl err \<and> r = Inl err \<and> tail = []) \<or>
     (\<exists>k le. lr = Inr (k, True, le) \<and> r = Inr () \<and> tail = []) \<or>
     (\<exists>le. lr = Inr (MAX_ATTEMPTS, False, le) \<and> r = Inr () \<and>
        tail = [ConsoleError (AllAttemptsFailed fw MAX_ATTEMPTS le)])"
proof -
  let ?p = "path_join (TESTDIR e) file"
  let ?w1 = "emit (ConsoleLog (GeneratingTests fw)) w"
  from runCommand_known[OF assms(1)] obtain cmd where cmd: "runCommand e fw ?p = Inr cmd" by blast
  obtain lr w2 where loop: "generateAndDebug_loop e fw ?p 0 False [] ?w1 = (lr, w2)" by force
  from loop_trace_of_loop[OF cmd loop] obtain evs where
    evs: "log w2 = log ?w1 @ evs" "files w2 = replay evs (files ?w1)"
      "loop_trace e fw ?p (shellLine e cmd) 0 [] evs lr" by blast
  show thesis
  proof (cases lr)
    case (Inl err)
    with assms loop have "r = Inl err" "w' = w2" by (simp_all add: generateAndDebug_def)
    with evs Inl that[of "shellLine e cmd" evs lr "[]"] show thesis by simp
  next
    case (Inr x)
    obtain k s le where x: "x = (k, s, le)" by (cases x)
    show thesis
    proof (cases s)
      case True
      with assms loop Inr x have "r = Inr ()" "w' = w2" by (simp_all add: generateAndDebug_def)
      with evs Inr x True that[of "shellLine e cmd" evs lr "[]"] show thesis by simp
    next
      case False
      with loop_trace_not_exhausted[OF evs(3)] Inr x have k: "k = MAX_ATTEMPTS" by simp
      from False assms loop Inr x have "r = Inr ()"
        "w' = emit (ConsoleError (AllAttemptsFailed fw MAX_ATTEMPTS le)) w2"
        by (simp_all add: generateAndDebug_def)
      with evs Inr x False k
        that[of "shellLine e cmd" evs lr "[ConsoleError (AllAttemptsFailed fw MAX_ATTEMPTS le)]"]
      show thesis by simp
    qed
  qed
qed


section \<open>Properties of the repair loop controller\<close>

lemma new_events_append: "log w' = log w @ evs \<Longrightarrow> new_events w w' = evs"
  by (simp add: new_events_def)

lemma split_in_middle:
  assumes "a # evs @ tail = pre @ x # post" and "x \<noteq> a" and "x \<notin> set tail"
  shows "\<exists>pre' post'. pre = a # pre' \<and> evs = pre' @ x # post' \<and> post = post' @ tail"
proof -
  from assms(1,2) obtain pre' where pre: "pre = a # pre'" and eq: "evs @ tail = pre' @ x # post"
    by (auto simp: Cons_eq_append_conv)
  from eq consider us where "evs = pre' @ us" "us @ tail = x # post"
    | us where "evs @ us = pre'" "tail = us @ x # post"
    by (auto simp: append_eq_append_conv2)
  then show ?thesis
  proof cases
    case 1
    with assms(3) obtain us' where "us = x # us'" "post = us' @ tail"
      by (cases us) auto
    with 1 pre show ?thesis by simp
  next
    case 2
    with assms(3) show ?thesis by simp
  qed
qed

text \<open>
  Claim C1. For every framework identifier and every behaviour of the generative service
  and of the shell, \<open>generateAndDebug\<close> returns (the loop is a total function: its
  termination is proved where it is defined), and the run issues at most
  \<open>MAX_ATTEMPTS = 3\<close> generation requests, at most 3 writes of the script and at most 3
  commands.
\<close>

theorem generateAndDebug_bounded:
  "MAX_ATTEMPTS = 3 \<and>
   (\<exists>r w'. generateAndDebug e fw w = (r, w') \<and>
      log w' = log w @ new_events w w' \<and>
      length (filter is_request (new_events w w')) \<le> MAX_ATTEMPTS \<and>
      length (filter is_write (new_events w w')) \<le> MAX_ATTEMPTS \<and>
      length (filter is_command (new_events w w')) \<le> MAX_ATTEMPTS)"
proof (cases "OUTPUT_FILES fw")
  case None
  then show ?thesis
    by (simp add: generateAndDebug_unknown new_events_def MAX_ATTEMPTS_def)
next
  case (Some fname)
  obtain r w' where run: "generateAndDebug e fw w = (r, w')" by force
  from Some run obtain evs lr line tail where
    t: "loop_trace e fw (path_join (TESTDIR e) fname) line 0 [] evs lr"
      "log w' = log w @ ConsoleLog (GeneratingTests fw) # evs @ tail"
      "(\<exists>err. lr = Inl err \<and> r = Inl err \<and> tail = []) \<or>
       (\<exists>k le. lr = Inr (k, True, le) \<and> r = Inr () \<and> tail = []) \<or>
       (\<exists>le. lr = Inr (MAX_ATTEMPTS, False, le) \<and> r = Inr () \<and>
          tail = [ConsoleError (AllAttemptsFailed fw MAX_ATTEMPTS le)])"
    by (rule generateAndDebug_trace)
  from t(3) have tail: "filter is_request tail = []" "filter is_write tail = []"
    "filter is_command tail = []" by auto
  from new_events_append[OF t(2)] loop_trace_counts[OF t(1)] tail run t(2)
  show ?thesis by (simp add: MAX_ATTEMPTS_def)
qed

text \<open>
  Claim C2. If a command of the run exits zero, it is the last effect of the run: only
  the two console lines that report the success follow it, \<open>generateAndDebug\<close> returns
  normally, and when that command was the \<open>k\<close>-th of the run (\<open>k\<close> is one more than
  the number of commands before it), then \<open>k \<le> MAX_ATTEMPTS\<close> and the whole run made
  exactly \<open>k\<close> generation requests, \<open>k\<close> writes and \<open>k\<close> commands.
\<close>

theorem success_stops_the_loop:
  assumes "generateAndDebug e fw w = (r, w')"
    and "new_events w w' = pre @ ExecPromise line (Resolved out) # post"
  shows "post = [ConsoleLog (ExecutedSuccessfully fw), ConsoleLog (ResultOutput (out_stdout out))] \<and>
     r = Inr () \<and>
     Suc (length (filter is_command pre)) \<le> MAX_ATTEMPTS \<and>
     length (filter is_request (new_events w w')) = Suc (length (filter is_command pre)) \<and>
     length (filter is_write (new_events w w')) = Suc (length (filter is_command pre)) \<and>
     length (filter is_command (new_events w w')) = Suc (length (filter is_command pre))"
proof (cases "OUTPUT_FILES fw")
  case None
  with assms show ?thesis by (simp add: generateAndDebug_unknown new_events_def)
next
  case (Some fname)
  from Some assms(1) obtain evs lr ln tail where
    t: "loop_trace e fw (path_join (TESTDIR e) fname) ln 0 [] evs lr"
      "log w' = log w @ ConsoleLog (GeneratingTests fw) # evs @ tail"
      "(\<exists>err. lr = Inl err \<and> r = Inl err \<and> tail = []) \<or>
       (\<exists>k le. lr = Inr (k, True, le) \<and> r = Inr () \<and> tail = []) \<or>
       (\<exists>le. lr = Inr (MAX_ATTEMPTS, False, le) \<and> r = Inr () \<and>
          tail = [ConsoleError (AllAttemptsFailed fw MAX_ATTEMPTS le)])"
    by (rule generateAndDebug_trace)
  let ?x = "ExecPromise line (Resolved out)"
  from new_events_append[OF t(2)] assms(2)
  have eq: "ConsoleLog (GeneratingTests fw) # evs @ tail = pre @ ?x # post" by simp
  from t(3) have "?x \<notin> set tail" by auto
  with split_in_middle[OF eq] obtain pre' post' where
    d: "pre = ConsoleLog (GeneratingTests fw) # pre'" "evs = pre' @ ?x # post'"
      "post = post' @ tail" by auto
  from loop_trace_success[OF t(1) d(2)] have
    s: "post' = [ConsoleLog (ExecutedSuccessfully fw), ConsoleLog (ResultOutput (out_stdout out))]"
      "lr = Inr (Suc (length (filter is_command pre')), True, out_stdout out)"
      "length (filter is_request pre') = Suc (length (filter is_command pre'))"
      "length (filter is_write pre') = Suc (length (filter is_command pre'))"
      "Suc (length (filter is_command pre')) \<le> MAX_ATTEMPTS" by simp_all
  from s(2) t(3) have tail: "tail = []" "r = Inr ()" by auto
  from new_events_append[OF t(2)] d s tail show ?thesis by simp
qed


section \<open>Evaluating the sample runs\<close>

lemmas run_defs = generateAndDebug_def generateAndDebug_loop.simps generateTestScript_def
  executeTestScript_def executeTestScript_try_def runCommand_def OUTPUT_FILES_def
  MAX_ATTEMPTS_def emit_def writeFileSync_def Let_def emptyWorld_def caught_output_def


lemma timeoutEnv_simps:
  "projectRoot timeoutEnv = ''/repo''"
  "generateContent timeoutEnv w req = Resolved sampleResponse"
  "writeFile timeoutEnv w path data = Written"
  "execPromise timeoutEnv w line =
     (if filter is_command (log w) = []
      then Rejected (JsError ''Command failed'' (Some ''Timeout 30000ms exceeded''))
      else Resolved \<lparr>out_stdout = ''1 passed'', out_stderr = []\<rparr>)"
  by (simp_all add: timeoutEnv_def)

lemmas path_defs = TESTDIR_def path_join_def path_basename_def shellLine_def

text \<open>
  The scenario of the specification: the first PLAYWRIGHT run fails with
  \<^verbatim>\<open>Timeout 30000ms exceeded\<close>, the second succeeds; two attempts ran, the second
  prompt was built from that error text, and there is no third request.
\<close>

theorem success_stops_the_loop_witness:
  "new_events emptyWorld (snd (generateAndDebug timeoutEnv ''PLAYWRIGHT'' emptyWorld)) =
     [ConsoleLog (GeneratingTests ''PLAYWRIGHT''),
      ConsoleLog (ExecutingAttempt ''PLAYWRIGHT'' 1),
      GenerateContent [promptText timeoutEnv ''PLAYWRIGHT'' [], Some userPrompt]
        (Resolved sampleResponse),
      WriteFileSync ''/repo/tests/google_navigation.playwright.spec.ts''
        (scriptText sampleResponse) Written,
      ExecPromise ''cd /repo/tests && npx playwright test google_navigation.playwright.spec.ts''
        (Rejected (JsError ''Command failed'' (Some ''Timeout 30000ms exceeded''))),
      ConsoleWarn (FailedOnAttempt ''PLAYWRIGHT'' 1 ''Timeout 30000ms exceeded''),
      ConsoleLog (ExecutingAttempt ''PLAYWRIGHT'' 2),
      GenerateContent
        [promptText timeoutEnv ''PLAYWRIGHT'' ''Timeout 30000ms exceeded'', Some userPrompt]
        (Resolved sampleResponse),
      WriteFileSync ''/repo/tests/google_navigation.playwright.spec.ts''
        (scriptText sampleResponse) Written] @
     ExecPromise ''cd /repo/tests && npx playwright test google_navigation.playwright.spec.ts''
       (Resolved \<lparr>out_stdout = ''1 passed'', out_stderr = []\<rparr>) #
     [ConsoleLog (ExecutedSuccessfully ''PLAYWRIGHT''), ConsoleLog (ResultOutput ''1 passed'')] \<and>
   fst (generateAndDebug timeoutEnv ''PLAYWRIGHT'' emptyWorld) = Inr () \<and>
   length (filter is_request
     (new_events emptyWorld (snd (generateAndDebug timeoutEnv ''PLAYWRIGHT'' emptyWorld)))) = 2 \<and>
   length (filter is_command
     (new_events emptyWorld (snd (generateAndDebug timeoutEnv ''PLAYWRIGHT'' emptyWorld)))) = 2"
proof -
  let ?run = "generateAndDebug timeoutEnv ''PLAYWRIGHT'' emptyWorld"
  have run: "?run = (fst ?run, snd ?run)" by simp
  have evs: "new_events emptyWorld (snd ?run) =
     [ConsoleLog (GeneratingTests ''PLAYWRIGHT''),
      ConsoleLog (ExecutingAttempt ''PLAYWRIGHT'' 1),
      GenerateContent [promptText timeoutEnv ''PLAYWRIGHT'' [], Some userPrompt]
        (Resolved sampleResponse),
      WriteFileSync ''/repo/tests/google_navigation.playwright.spec.ts''
        (scriptText sampleResponse) Written,
      ExecPromise ''cd /repo/tests && npx playwright test google_navigation.playwright.spec.ts''
        (Rejected (JsError ''Command failed'' (Some ''Timeout 30000ms exceeded''))),
      ConsoleWarn (FailedOnAttempt ''PLAYWRIGHT'' 1 ''Timeout 30000ms exceeded''),
      ConsoleLog (ExecutingAttempt ''PLAYWRIGHT'' 2),
      GenerateContent
        [promptText timeoutEnv ''PLAYWRIGHT'' ''Timeout 30000ms exceeded'', Some userPrompt]
        (Resolved sampleResponse),
      WriteFileSync ''/repo/tests/google_navigation.playwright.spec.ts''
        (scriptText sampleResponse) Written] @
     ExecPromise ''cd /repo/tests && npx playwright test google_navigation.playwright.spec.ts''
       (Resolved \<lparr>out_stdout = ''1 passed'', out_stderr = []\<rparr>) #
     [ConsoleLog (ExecutedSuccessfully ''PLAYWRIGHT''), ConsoleLog (ResultOutput ''1 passed'')]"
    by (simp add: run_defs timeoutEnv_simps path_defs new_events_def)
  from success_stops_the_loop[OF run evs] evs show ?thesis by simp
qed

section \<open>Facts about the string operations\<close>

lemma startsWith_iff: "startsWith s p \<longleftrightarrow> (\<exists>t. s = p @ t)"
  by (induction s p rule: startsWith.induct) auto

lemma str_includes_iff: "str_includes s p \<longleftrightarrow> (\<exists>a b. s = a @ p @ b)"
proof (induction s)
  case Nil
  then show ?case by auto
next
  case (Cons c cs)
  show ?case
  proof
    assume "str_includes (c # cs) p"
    then consider "startsWith (c # cs) p" | "str_includes cs p" by auto
    then show "\<exists>a b. c # cs = a @ p @ b"
    proof cases
      case 1
      then obtain t where "c # cs = p @ t" by (auto simp: startsWith_iff)
      then have "c # cs = [] @ p @ t" by simp
      then show ?thesis by blast
    next
      case 2
      with Cons obtain a b where "cs = a @ p @ b" by auto
      then have "c # cs = (c # a) @ p @ b" by simp
      then show ?thesis by blast
    qed
  next
    assume "\<exists>a b. c # cs = a @ p @ b"
    then obtain a b where ab: "c # cs = a @ p @ b" by auto
    show "str_includes (c # cs) p"
    proof (cases a)
      case Nil
      with ab have "startsWith (c # cs) p" by (auto simp: startsWith_iff)
      then show ?thesis by simp
    next
      case (Cons x xs)
      with ab have "cs = xs @ p @ b" by simp
      with Cons.IH have "str_includes cs p" by blast
      then show ?thesis by simp
    qed
  qed
qed


lemma split_nl_not_Nil [simp]: "split_nl s \<noteq> []"
  by (induction s) (auto split: list.splits)

lemma split_nl_single: "CHR 0x0A \<notin> set l \<Longrightarrow> split_nl l = [l]"
  by (induction l) auto

lemma split_nl_append:
  "CHR 0x0A \<notin> set l \<Longrightarrow> split_nl (l @ CHR 0x0A # rest) = l # split_nl rest"
  by (induction l) (auto split: list.splits)

lemma split_nl_lines: "l \<in> set (split_nl s) \<Longrightarrow> CHR 0x0A \<notin> set l"
  by (induction s arbitrary: l) (auto split: if_splits list.splits)

lemma split_join_nl:
  "ls \<noteq> [] \<Longrightarrow> \<forall>l \<in> set ls. CHR 0x0A \<notin> set l \<Longrightarrow> split_nl (join_nl ls) = ls"
  by (induction ls rule: join_nl.induct) (auto simp: split_nl_single split_nl_append)

lemma join_split_nl: "join_nl (split_nl s) = s"
proof (induction s)
  case Nil
  show ?case by simp
next
  case (Cons c cs)
  obtain l ls where ls: "split_nl cs = l # ls" by (cases "split_nl cs") auto
  with Cons show ?case by (cases ls) auto
qed

lemma split_nl_cleaned:
  "split_nl (cleaned t) =
     (if filter (\<lambda>l. \<not> str_includes l codeFence) (split_nl t) = [] then [[]]
      else filter (\<lambda>l. \<not> str_includes l codeFence) (split_nl t))"
  by (auto simp: cleaned_def intro!: split_join_nl dest: split_nl_lines)

lemma appendPart_append: "appendPart out p = out @ appendPart [] p"
  by (simp add: appendPart_def split: option.splits list.splits)

lemma foldl_appendPart: "foldl appendPart out ps = out @ concat (map (appendPart []) ps)"
proof (induction ps arbitrary: out)
  case Nil
  show ?case by simp
next
  case (Cons p ps)
  have "foldl appendPart out (p # ps) = appendPart out p @ concat (map (appendPart []) ps)"
    by (simp add: Cons.IH)
  also have "appendPart out p = out @ appendPart [] p"
    by (rule appendPart_append)
  finally show ?case by simp
qed


section \<open>Properties of the script synthesizer\<close>

lemma basePrompts_dom: "dom (basePrompts e) = {''PLAYWRIGHT'', ''TESTCAFE'', ''SELENIUM''}"
  by (auto simp: basePrompts_def split: if_splits)

lemma generateTestScript_log:
  "\<exists>s. new_events w (snd (generateTestScript e fw le w)) =
     [GenerateContent [promptText e fw le, Some userPrompt] s]"
  by (simp add: generateTestScript_def Let_def new_events_def split: settled.splits)

text \<open>
  Claim C3. For a framework with base template \<open>base\<close> and a non-empty error text, the
  prompt is the base template followed by a suffix that holds the error text verbatim
  (\<^verbatim>\<open>The previous attempt failed with the following error:\<close>, the error text,
  \<^verbatim>\<open>Please correct the code and regenerate.\<close>); with no error text the prompt is exactly
  the base template; and that prompt is the first part of the one request that
  \<open>generateTestScript\<close> sends.
\<close>

theorem promptText_carries_error:
  assumes "basePrompts e fw = Some base" and "errorContext \<noteq> []"
  shows "promptText e fw errorContext =
       Some (base @ NL @ NL @ ''The previous attempt failed with the following error:'' @ NL @
             errorContext @ NL @ ''Please correct the code and regenerate.'') \<and>
     (\<exists>p. promptText e fw errorContext = Some p \<and> startsWith p base \<and>
          str_includes p errorContext) \<and>
     promptText e fw [] = Some base \<and>
     (\<exists>s. new_events w (snd (generateTestScript e fw errorContext w)) =
          [GenerateContent [promptText e fw errorContext, Some userPrompt] s])"
proof -
  let ?p = "base @ NL @ NL @ ''The previous attempt failed with the following error:'' @ NL @
             errorContext @ NL @ ''Please correct the code and regenerate.''"
  from assms have p: "promptText e fw errorContext = Some ?p"
    by (simp add: promptText_def interpolate_def)
  have "startsWith ?p base" unfolding startsWith_iff by blast
  moreover have "?p = (base @ NL @ NL @
      ''The previous attempt failed with the following error:'' @ NL) @
      errorContext @ (NL @ ''Please correct the code and regenerate.'')" by simp
  then have "str_includes ?p errorContext" unfolding str_includes_iff by blast
  moreover from assms(1) have "promptText e fw [] = Some base"
    by (simp add: promptText_def)
  ultimately show ?thesis using p generateTestScript_log[of w e fw errorContext] by simp
qed

theorem promptText_carries_error_witness:
  "basePrompts timeoutEnv ''PLAYWRIGHT'' =
     Some (''Generate an accurate and fully executable Playwright test script in TypeScript.'' @
           NL @ promptContext timeoutEnv ''google_navigation.playwright.spec.ts'' @ commentsRule) \<and>
   ''Timeout 30000ms exceeded'' \<noteq> [] \<and>
   promptText timeoutEnv ''PLAYWRIGHT'' ''Timeout 30000ms exceeded'' =
     Some (''Generate an accurate and fully executable Playwright test script in TypeScript.'' @
           NL @ promptContext timeoutEnv ''google_navigation.playwright.spec.ts'' @ commentsRule @
           NL @ NL @ ''The previous attempt failed with the following error:'' @ NL @
           ''Timeout 30000ms exceeded'' @ NL @ ''Please correct the code and regenerate.'') \<and>
   promptText timeoutEnv ''PLAYWRIGHT'' [] = basePrompts timeoutEnv ''PLAYWRIGHT''"
proof -
  have base: "basePrompts timeoutEnv ''PLAYWRIGHT'' =
     Some (''Generate an accurate and fully executable Playwright test script in TypeScript.'' @
           NL @ promptContext timeoutEnv ''google_navigation.playwright.spec.ts'' @ commentsRule)"
    by (simp add: basePrompts_def)
  have ne: "''Timeout 30000ms exceeded'' \<noteq> []" by simp
  from promptText_carries_error[OF base ne, of emptyWorld] base show ?thesis by simp
qed


lemma hd_split_scriptText: "hd (split_nl (scriptText resp)) = provenance"
proof -
  have "CHR 0x0A \<notin> set provenance" by (simp add: provenance_def)
  then have "split_nl (provenance @ CHR 0x0A # (NL @ foldl appendPart [] (response_parts resp)))
      = provenance # split_nl (NL @ foldl appendPart [] (response_parts resp))"
    by (rule split_nl_append)
  then show ?thesis by (simp add: scriptText_def)
qed

text \<open>
  Claim C7. The script returned for a response whose first candidate holds the parts
  \<open>ps\<close> is the comment \<^verbatim>\<open>// *** This code is generated by AI Agent ***\<close>, an empty line, and
  then the contributions of all the parts of \<open>ps\<close>, concatenated in response order; that
  comment is the first line of every script. A part with a non-empty text contributes
  the cleaned text and a line break; a part whose text is absent or empty and whose
  executable code is non-empty contributes the code verbatim and a line break; any other
  part contributes nothing. The lines of the cleaned text are the lines of the text that
  do not contain three consecutive backticks, in their order (one empty line when none is
  left), where the lines of a text are its pieces between line breaks.
\<close>

theorem scriptText_assembles_parts:
  "fst (generateTestScript e fw le w) =
     (case generateContent e w [promptText e fw le, Some userPrompt] of
        Rejected err \<Rightarrow> Inl err
      | Resolved resp \<Rightarrow> Inr (scriptText resp)) \<and>
   scriptText (Some \<lparr>candidates = Some (\<lparr>candidate_content = Some \<lparr>parts = Some ps\<rparr>\<rparr> # cs)\<rparr>) =
     ''// *** This code is generated by AI Agent ***'' @ NL @ NL @
     concat (map (appendPart []) ps) \<and>
   hd (split_nl (scriptText resp)) = ''// *** This code is generated by AI Agent ***'' \<and>
   (part_text p1 = Some t1 \<and> t1 \<noteq> [] \<longrightarrow> appendPart [] p1 = cleaned t1 @ NL) \<and>
   ((part_text p2 = None \<or> part_text p2 = Some []) \<and>
    executableCode p2 = Some ec \<and> code ec = Some c \<and> c \<noteq> [] \<longrightarrow>
      appendPart [] p2 = c @ NL) \<and>
   ((part_text p3 = None \<or> part_text p3 = Some []) \<and>
    (executableCode p3 = None \<or>
     (\<exists>ec'. executableCode p3 = Some ec' \<and> (code ec' = None \<or> code ec' = Some []))) \<longrightarrow>
      appendPart [] p3 = []) \<and>
   split_nl (cleaned t) =
     (if filter (\<lambda>l. \<not> (\<exists>a b. l = a @ [CHR 0x60, CHR 0x60, CHR 0x60] @ b)) (split_nl t) = []
      then [[]]
      else filter (\<lambda>l. \<not> (\<exists>a b. l = a @ [CHR 0x60, CHR 0x60, CHR 0x60] @ b)) (split_nl t)) \<and>
   join_nl (split_nl t) = t \<and>
   split_nl t \<noteq> [] \<and>
   (\<forall>l \<in> set (split_nl t). CHR 0x0A \<notin> set l)"
proof -
  have 1: "fst (generateTestScript e fw le w) =
     (case generateContent e w [promptText e fw le, Some userPrompt] of
        Rejected err \<Rightarrow> Inl err
      | Resolved resp \<Rightarrow> Inr (scriptText resp))"
    by (simp add: generateTestScript_def Let_def split: settled.splits)
  have 2: "scriptText (Some \<lparr>candidates = Some (\<lparr>candidate_content = Some \<lparr>parts = Some ps\<rparr>\<rparr> # cs)\<rparr>) =
     ''// *** This code is generated by AI Agent ***'' @ NL @ NL @
     concat (map (appendPart []) ps)"
    by (simp add: scriptText_def foldl_appendPart response_parts_def provenance_def)
  have 3: "hd (split_nl (scriptText resp)) = ''// *** This code is generated by AI Agent ***''"
    using hd_split_scriptText[of resp] by (simp only: provenance_def)
  have 4: "part_text p1 = Some t1 \<and> t1 \<noteq> [] \<longrightarrow> appendPart [] p1 = cleaned t1 @ NL"
    by (simp add: appendPart_def split: list.splits)
  have 5: "(part_text p2 = None \<or> part_text p2 = Some []) \<and>
    executableCode p2 = Some ec \<and> code ec = Some c \<and> c \<noteq> [] \<longrightarrow>
      appendPart [] p2 = c @ NL"
    by (auto simp: appendPart_def part_code_def split: list.splits)
  have 6: "(part_text p3 = None \<or> part_text p3 = Some []) \<and>
    (executableCode p3 = None \<or>
     (\<exists>ec'. executableCode p3 = Some ec' \<and> (code ec' = None \<or> code ec' = Some []))) \<longrightarrow>
      appendPart [] p3 = []"
    by (auto simp: appendPart_def part_code_def split: list.splits)
  have fence: "(\<lambda>l. \<not> str_includes l codeFence) =
      (\<lambda>l. \<not> (\<exists>a b. l = a @ [CHR 0x60, CHR 0x60, CHR 0x60] @ b))"
    by (simp add: str_includes_iff codeFence_def)
  have 7: "split_nl (cleaned t) =
     (if filter (\<lambda>l. \<not> (\<exists>a b. l = a @ [CHR 0x60, CHR 0x60, CHR 0x60] @ b)) (split_nl t) = []
      then [[]]
      else filter (\<lambda>l. \<not> (\<exists>a b. l = a @ [CHR 0x60, CHR 0x60, CHR 0x60] @ b)) (split_nl t))"
    using split_nl_cleaned[of t] by (simp only: fence)
  have 8: "\<forall>l \<in> set (split_nl t). CHR 0x0A \<notin> set l"
    by (blast dest: split_nl_lines)
  from 1 2 3 4 5 6 7 join_split_nl[of t] split_nl_not_Nil[of t] 8 show ?thesis by blast
qed

lemma cleaned_sample:
  "cleaned (codeFence @ ''ts'' @ NL @ ''test('' @ [CHR 0x60] @ ''x'' @ [CHR 0x60] @ '')'' @
            NL @ codeFence) =
     ''test('' @ [CHR 0x60] @ ''x'' @ [CHR 0x60] @ '')''"
  by (simp add: cleaned_def codeFence_def)

lemma cleaned_plain: "cleaned ''// end'' = ''// end''"
  by (simp add: cleaned_def codeFence_def)

text \<open>
  On the sample response: the two fence lines of the first part are dropped and its line
  with single backticks is kept, all four parts are read, and the part with neither
  field contributes nothing.
\<close>

theorem scriptText_assembles_parts_witness:
  "scriptText sampleResponse =
     ''// *** This code is generated by AI Agent ***'' @ NL @ NL @
     ''test('' @ [CHR 0x60] @ ''x'' @ [CHR 0x60] @ '')'' @ NL @ ''done()'' @ NL @
     ''// end'' @ NL \<and>
   fst (generateTestScript timeoutEnv ''PLAYWRIGHT'' [] emptyWorld) = Inr (scriptText sampleResponse) \<and>
   hd (split_nl (scriptText sampleResponse)) = ''// *** This code is generated by AI Agent ***'' \<and>
   split_nl (cleaned ([CHR 0x60, CHR 0x60, CHR 0x60] @ ''ts'' @ NL @
                      ''test('' @ [CHR 0x60] @ ''x'' @ [CHR 0x60] @ '')'' @ NL @
                      [CHR 0x60, CHR 0x60, CHR 0x60])) =
     [''test('' @ [CHR 0x60] @ ''x'' @ [CHR 0x60] @ '')'']"
proof -
  let ?t = "codeFence @ ''ts'' @ NL @ ''test('' @ [CHR 0x60] @ ''x'' @ [CHR 0x60] @ '')'' @
            NL @ codeFence"
  let ?ps = "[textPart ?t, codePart ''done()'', textPart ''// end'',
              \<lparr>part_text = None, executableCode = None\<rparr>]"
  have resp: "sampleResponse =
      Some \<lparr>candidates = Some (\<lparr>candidate_content = Some \<lparr>parts = Some ?ps\<rparr>\<rparr> # [])\<rparr>"
    by (simp add: sampleResponse_def responseOf_def)
  note inst = scriptText_assembles_parts[of timeoutEnv "''PLAYWRIGHT''" "[]" emptyWorld
      ?ps "[]" sampleResponse "textPart ?t" ?t "codePart ''done()''" "\<lparr>code = Some ''done()''\<rparr>"
      "''done()''" "\<lparr>part_text = None, executableCode = None\<rparr>" ?t]
  from inst have gen: "fst (generateTestScript timeoutEnv ''PLAYWRIGHT'' [] emptyWorld) =
     (case generateContent timeoutEnv emptyWorld
             [promptText timeoutEnv ''PLAYWRIGHT'' [], Some userPrompt] of
        Rejected err \<Rightarrow> Inl err
      | Resolved resp \<Rightarrow> Inr (scriptText resp))"
    by (rule conjunct1)
  from inst have asm: "scriptText sampleResponse =
      ''// *** This code is generated by AI Agent ***'' @ NL @ NL @
      concat (map (appendPart []) ?ps)"
    unfolding resp by (elim conjE)
  from inst have first: "hd (split_nl (scriptText sampleResponse)) =
      ''// *** This code is generated by AI Agent ***''"
    by (elim conjE)
  from inst have tp: "appendPart [] (textPart ?t) = cleaned ?t @ NL"
    by (elim conjE) (simp add: textPart_def codeFence_def)
  from inst have cp: "appendPart [] (codePart ''done()'') = ''done()'' @ NL"
    by (elim conjE) (simp add: codePart_def)
  from inst have np: "appendPart [] \<lparr>part_text = None, executableCode = None\<rparr> = []"
    by (elim conjE) simp
  have ep: "appendPart [] (textPart ''// end'') = cleaned ''// end'' @ NL"
    by (simp add: appendPart_def textPart_def)
  have f: "filter (\<lambda>l. \<not> (\<exists>a b. l = a @ [CHR 0x60, CHR 0x60, CHR 0x60] @ b)) (split_nl ?t) =
      [''test('' @ [CHR 0x60] @ ''x'' @ [CHR 0x60] @ '')'']"
    unfolding str_includes_iff[symmetric] by (simp add: codeFence_def)
  from inst f have lines: "split_nl (cleaned ?t) =
      [''test('' @ [CHR 0x60] @ ''x'' @ [CHR 0x60] @ '')'']"
    by (elim conjE) (simp only: if_False list.simps)
  have "scriptText sampleResponse =
      ''// *** This code is generated by AI Agent ***'' @ NL @ NL @
      (cleaned ?t @ NL) @ (''done()'' @ NL) @ (cleaned ''// end'' @ NL)"
    unfolding asm by (simp only: list.map concat.simps tp cp ep np append_Nil2)
  then have "scriptText sampleResponse =
      ''// *** This code is generated by AI Agent ***'' @ NL @ NL @
      ''test('' @ [CHR 0x60] @ ''x'' @ [CHR 0x60] @ '')'' @ NL @ ''done()'' @ NL @
      ''// end'' @ NL"
    by (simp only: cleaned_sample cleaned_plain append_assoc)
  moreover have "fst (generateTestScript timeoutEnv ''PLAYWRIGHT'' [] emptyWorld) =
      Inr (scriptText sampleResponse)"
    unfolding gen by (simp add: timeoutEnv_simps)
  moreover from lines have "split_nl (cleaned ([CHR 0x60, CHR 0x60, CHR 0x60] @ ''ts'' @ NL @
                      ''test('' @ [CHR 0x60] @ ''x'' @ [CHR 0x60] @ '')'' @ NL @
                      [CHR 0x60, CHR 0x60, CHR 0x60])) =
     [''test('' @ [CHR 0x60] @ ''x'' @ [CHR 0x60] @ '')'']"
    by (simp only: codeFence_def)
  ultimately show ?thesis using first by simp
qed

section \<open>Properties of the script runner\<close>

text \<open>
  Claim C9. For every framework identifier and file path, \<open>executeTestScript\<close> returns
  a result and never throws. The result has \<open>success = True\<close> exactly when a command
  was spawned and exited zero, and then its output is the captured standard output;
  when the command fails, the output is the captured standard error if that is not
  empty, and the message of the error otherwise; for an unknown framework no command
  is spawned and the output is the message of the error thrown by the \<^verbatim>\<open>switch\<close>.
\<close>

theorem executeTestScript_never_throws:
  "\<exists>r. fst (executeTestScript e fw p w) = Inr r \<and>
     (success r \<longleftrightarrow>
        (\<exists>cmd out. runCommand e fw p = Inr cmd \<and>
           execPromise e w (shellLine e cmd) = Resolved out)) \<and>
     (\<forall>cmd out. runCommand e fw p = Inr cmd \<longrightarrow>
        execPromise e w (shellLine e cmd) = Resolved out \<longrightarrow>
        r = \<lparr>success = True, result_output = out_stdout out\<rparr>) \<and>
     (\<forall>cmd err. runCommand e fw p = Inr cmd \<longrightarrow>
        execPromise e w (shellLine e cmd) = Rejected err \<longrightarrow>
        r = \<lparr>success = False, result_output =
              (case stderr err of
                 None \<Rightarrow> message err
               | Some s \<Rightarrow> if s \<noteq> [] then s else message err)\<rparr>) \<and>
     (\<forall>err. runCommand e fw p = Inl err \<longrightarrow>
        r = \<lparr>success = False, result_output = message err\<rparr> \<and>
        snd (executeTestScript e fw p w) = w)"
proof (cases "runCommand e fw p")
  case (Inl err)
  then have "stderr err = None"
    by (auto simp: runCommand_def Let_def split: if_splits)
  with Inl show ?thesis
    by (simp add: executeTestScript_def executeTestScript_try_def caught_output_def)
next
  case (Inr cmd)
  show ?thesis
  proof (cases "execPromise e w (shellLine e cmd)")
    case (Resolved out)
    with Inr show ?thesis
      by (simp add: executeTestScript_def executeTestScript_try_def Let_def)
  next
    case (Rejected err)
    have "caught_output err =
        (case stderr err of None \<Rightarrow> message err
         | Some s \<Rightarrow> if s \<noteq> [] then s else message err)"
      by (simp add: caught_output_def split: option.splits list.splits)
    with Inr Rejected show ?thesis
      by (simp add: executeTestScript_def executeTestScript_try_def Let_def)
  qed
qed


lemma failingEnv_simps:
  "projectRoot failingEnv = ''/repo''"
  "generateContent failingEnv w req = Resolved sampleResponse"
  "writeFile failingEnv w path data = Written"
  "execPromise failingEnv w line = Rejected (JsError ''Command failed'' (Some []))"
  by (simp_all add: failingEnv_def)

lemma rejectingEnv_simps:
  "projectRoot rejectingEnv = ''/repo''"
  "generateContent rejectingEnv w req = Rejected (JsError ''429 quota exceeded'' None)"
  "writeFile rejectingEnv w path data = Written"
  "execPromise rejectingEnv w line = Resolved \<lparr>out_stdout = ''1 passed'', out_stderr = []\<rparr>"
  by (simp_all add: rejectingEnv_def)

lemma silentEnv_simps:
  "projectRoot silentEnv = ''/repo''"
  "generateContent silentEnv w req = Resolved (Some \<lparr>candidates = Some []\<rparr>)"
  "writeFile silentEnv w path data = Written"
  "execPromise silentEnv w line = Rejected (JsError ''Command failed'' (Some ''No tests found''))"
  by (simp_all add: silentEnv_def)

theorem executeTestScript_never_throws_witness:
  "fst (executeTestScript timeoutEnv ''PLAYWRIGHT''
          ''/repo/tests/google_navigation.playwright.spec.ts'' emptyWorld) =
     Inr \<lparr>success = False, result_output = ''Timeout 30000ms exceeded''\<rparr> \<and>
   fst (executeTestScript failingEnv ''TESTCAFE''
          ''/repo/tests/google_navigation.testcafe.ts'' emptyWorld) =
     Inr \<lparr>success = False, result_output = ''Command failed''\<rparr> \<and>
   fst (executeTestScript rejectingEnv ''SELENIUM''
          ''/repo/tests/google_navigation.selenium.spec.cjs'' emptyWorld) =
     Inr \<lparr>success = True, result_output = ''1 passed''\<rparr> \<and>
   executeTestScript rejectingEnv ''APPIUM'' ''/repo/tests/x.js'' emptyWorld =
     (Inr \<lparr>success = False, result_output = ''Unknown framework: APPIUM''\<rparr>, emptyWorld)"
proof -
  let ?p1 = "''/repo/tests/google_navigation.playwright.spec.ts''"
  let ?p2 = "''/repo/tests/google_navigation.testcafe.ts''"
  let ?p3 = "''/repo/tests/google_navigation.selenium.spec.cjs''"
  let ?p4 = "''/repo/tests/x.js''"
  have c1: "runCommand timeoutEnv ''PLAYWRIGHT'' ?p1 =
      Inr ''npx playwright test google_navigation.playwright.spec.ts''"
    by (simp add: runCommand_def path_basename_def)
  have c2: "runCommand failingEnv ''TESTCAFE'' ?p2 =
      Inr ''npx testcafe chrome google_navigation.testcafe.ts''"
    by (simp add: runCommand_def path_basename_def)
  have c3: "runCommand rejectingEnv ''SELENIUM'' ?p3 =
      Inr (''npx mocha '' @ [CHR 0x22] @ ''/repo/tests/google_navigation.selenium.spec.cjs'' @
           [CHR 0x22])"
    by (simp add: runCommand_def path_basename_def path_resolve_def path_join_def TESTDIR_def
        rejectingEnv_simps)
  have c4: "runCommand rejectingEnv ''APPIUM'' ?p4 =
      Inl (JsError ''Unknown framework: APPIUM'' None)"
    by (simp add: runCommand_def)
  from executeTestScript_never_throws[of timeoutEnv "''PLAYWRIGHT''" ?p1 emptyWorld]
  obtain r1 where r1: "fst (executeTestScript timeoutEnv ''PLAYWRIGHT'' ?p1 emptyWorld) = Inr r1"
    and "\<forall>cmd err. runCommand timeoutEnv ''PLAYWRIGHT'' ?p1 = Inr cmd \<longrightarrow>
        execPromise timeoutEnv emptyWorld (shellLine timeoutEnv cmd) = Rejected err \<longrightarrow>
        r1 = \<lparr>success = False, result_output =
              (case stderr err of
                 None \<Rightarrow> message err
               | Some s \<Rightarrow> if s \<noteq> [] then s else message err)\<rparr>"
    by (elim exE conjE)
  with c1 have "r1 = \<lparr>success = False, result_output = ''Timeout 30000ms exceeded''\<rparr>"
    by (simp add: timeoutEnv_simps emptyWorld_def)
  note a1 = r1[unfolded this]
  from executeTestScript_never_throws[of failingEnv "''TESTCAFE''" ?p2 emptyWorld]
  obtain r2 where r2: "fst (executeTestScript failingEnv ''TESTCAFE'' ?p2 emptyWorld) = Inr r2"
    and "\<forall>cmd err. runCommand failingEnv ''TESTCAFE'' ?p2 = Inr cmd \<longrightarrow>
        execPromise failingEnv emptyWorld (shellLine failingEnv cmd) = Rejected err \<longrightarrow>
        r2 = \<lparr>success = False, result_output =
              (case stderr err of
                 None \<Rightarrow> message err
               | Some s \<Rightarrow> if s \<noteq> [] then s else message err)\<rparr>"
    by (elim exE conjE)
  with c2 have "r2 = \<lparr>success = False, result_output = ''Command failed''\<rparr>"
    by (simp add: failingEnv_simps)
  note a2 = r2[unfolded this]
  from executeTestScript_never_throws[of rejectingEnv "''SELENIUM''" ?p3 emptyWorld]
  obtain r3 where r3: "fst (executeTestScript rejectingEnv ''SELENIUM'' ?p3 emptyWorld) = Inr r3"
    and "\<forall>cmd out. runCommand rejectingEnv ''SELENIUM'' ?p3 = Inr cmd \<longrightarrow>
        execPromise rejectingEnv emptyWorld (shellLine rejectingEnv cmd) = Resolved out \<longrightarrow>
        r3 = \<lparr>success = True, result_output = out_stdout out\<rparr>"
    by (elim exE conjE)
  with c3 have "r3 = \<lparr>success = True, result_output = ''1 passed''\<rparr>"
    by (simp add: rejectingEnv_simps)
  note a3 = r3[unfolded this]
  from executeTestScript_never_throws[of rejectingEnv "''APPIUM''" ?p4 emptyWorld]
  obtain r4 where r4: "fst (executeTestScript rejectingEnv ''APPIUM'' ?p4 emptyWorld) = Inr r4"
    and "\<forall>err. runCommand rejectingEnv ''APPIUM'' ?p4 = Inl err \<longrightarrow>
        r4 = \<lparr>success = False, result_output = message err\<rparr> \<and>
        snd (executeTestScript rejectingEnv ''APPIUM'' ?p4 emptyWorld) = emptyWorld"
    by (elim exE conjE)
  with c4 have "r4 = \<lparr>success = False, result_output = ''Unknown framework: APPIUM''\<rparr>"
    "snd (executeTestScript rejectingEnv ''APPIUM'' ?p4 emptyWorld) = emptyWorld"
    by simp_all
  with r4 have a4: "executeTestScript rejectingEnv ''APPIUM'' ?p4 emptyWorld =
     (Inr \<lparr>success = False, result_output = ''Unknown framework: APPIUM''\<rparr>, emptyWorld)"
    by (simp add: prod_eq_iff)
  from a1 a2 a3 a4 show ?thesis by (intro conjI)
qed

section \<open>A response without code\<close>

lemma loop_first_attempt:
  assumes n: "n < MAX_ATTEMPTS" and cmd: "runCommand e fw p = Inr cmd"
    and gen: "generateContent e (emit (ConsoleLog (ExecutingAttempt fw (Suc n))) w)
                [promptText e fw le, Some userPrompt] = Resolved resp"
    and wr: "writeFile e
               (emit (GenerateContent [promptText e fw le, Some userPrompt] (Resolved resp))
                  (emit (ConsoleLog (ExecutingAttempt fw (Suc n))) w))
               p (scriptText resp) = Written"
  shows "\<exists>s rest. new_events w (snd (generateAndDebug_loop e fw p n False le w)) =
     ConsoleLog (ExecutingAttempt fw (Suc n)) #
     GenerateContent [promptText e fw le, Some userPrompt] (Resolved resp) #
     WriteFileSync p (scriptText resp) Written # ExecPromise (shellLine e cmd) s # rest"
proof -
  let ?w1 = "emit (ConsoleLog (ExecutingAttempt fw (Suc n))) w"
  let ?req = "[promptText e fw le, Some userPrompt]"
  let ?w2 = "emit (GenerateContent ?req (Resolved resp)) ?w1"
  let ?w3 = "emit (WriteFileSync p (scriptText resp) Written)
               (?w2\<lparr>files := (files ?w2)(p \<mapsto> scriptText resp)\<rparr>)"
  from gen have g: "generateTestScript e fw le ?w1 = (Inr (scriptText resp), ?w2)"
    by (simp add: generateTestScript_def Let_def)
  from wr have wf: "writeFileSync e p (scriptText resp) ?w2 = (Inr (), ?w3)"
    by (simp add: writeFileSync_def)
  obtain x w4 where ex: "executeTestScript e fw p ?w3 = (x, w4)" by force
  show ?thesis
  using ex cmd proof (cases rule: executeTestScript_cases)
    case (failed err)
    let ?w5 = "emit (ConsoleWarn (FailedOnAttempt fw (Suc n) (caught_output err))) w4"
    obtain r w' where rest: "generateAndDebug_loop e fw p (Suc n) False (caught_output err) ?w5 = (r, w')"
      by force
    from loop_trace_of_loop[OF cmd rest] obtain evs where "log w' = log ?w5 @ evs" by blast
    moreover from n g wf ex failed rest
    have "generateAndDebug_loop e fw p n False le w = (r, w')"
      by (simp add: generateAndDebug_loop.simps[of e fw p n False])
    ultimately show ?thesis using failed by (simp add: new_events_def)
  next
    case (passed out)
    with n g wf ex show ?thesis
      by (simp add: generateAndDebug_loop.simps[of e fw p n False] new_events_def)
  qed
qed

lemma loop_first_write_threw:
  assumes n: "n < MAX_ATTEMPTS"
    and gen: "generateContent e (emit (ConsoleLog (ExecutingAttempt fw (Suc n))) w)
                [promptText e fw le, Some userPrompt] = Resolved resp"
    and wr: "writeFile e
               (emit (GenerateContent [promptText e fw le, Some userPrompt] (Resolved resp))
                  (emit (ConsoleLog (ExecutingAttempt fw (Suc n))) w))
               p (scriptText resp) = WriteThrew err left"
  shows "fst (generateAndDebug_loop e fw p n False le w) = Inl err \<and>
     new_events w (snd (generateAndDebug_loop e fw p n False le w)) =
       [ConsoleLog (ExecutingAttempt fw (Suc n)),
        GenerateContent [promptText e fw le, Some userPrompt] (Resolved resp),
        WriteFileSync p (scriptText resp) (WriteThrew err left)]"
proof -
  let ?w1 = "emit (ConsoleLog (ExecutingAttempt fw (Suc n))) w"
  let ?req = "[promptText e fw le, Some userPrompt]"
  let ?w2 = "emit (GenerateContent ?req (Resolved resp)) ?w1"
  let ?w3 = "emit (WriteFileSync p (scriptText resp) (WriteThrew err left))
               (?w2\<lparr>files := (files ?w2)(p := left)\<rparr>)"
  from gen have g: "generateTestScript e fw le ?w1 = (Inr (scriptText resp), ?w2)"
    by (simp add: generateTestScript_def Let_def)
  from wr have wf: "writeFileSync e p (scriptText resp) ?w2 = (Inl err, ?w3)"
    by (simp add: writeFileSync_def)
  from n g wf have "generateAndDebug_loop e fw p n False le w = (Inl err, ?w3)"
    by (simp add: generateAndDebug_loop.simps[of e fw p n False])
  then show ?thesis by (simp add: new_events_def)
qed

lemma scriptText_no_code:
  assumes "\<forall>p \<in> set (response_parts resp). part_text p = None \<and> executableCode p = None"
  shows "scriptText resp = ''// *** This code is generated by AI Agent ***'' @ NL @ NL"
proof -
  from assms have "\<forall>p \<in> set (response_parts resp). appendPart [] p = []"
    by (simp add: appendPart_def part_code_def)
  then have "concat (map (appendPart []) (response_parts resp)) = []" by simp
  then show ?thesis by (simp add: scriptText_def foldl_appendPart provenance_def)
qed

lemma readonlyEnv_simps:
  "projectRoot readonlyEnv = ''/repo''"
  "generateContent readonlyEnv w req = Resolved (Some \<lparr>candidates = Some []\<rparr>)"
  "writeFile readonlyEnv w path data =
     WriteThrew (JsError ''EISDIR: illegal operation on a directory, open'' None) None"
  "execPromise readonlyEnv w line = Resolved \<lparr>out_stdout = ''1 passed'', out_stderr = []\<rparr>"
  by (simp_all add: readonlyEnv_def)

text \<open>
  Claim C10, as the specification states it, does not hold: the attempt does not always
  go on to execute the near-empty script. The generative service answers with no
  candidate and the write of the script throws (the output path is a directory): no
  command is run, and the exception of the write leaves \<open>generateAndDebug\<close>.
\<close>

theorem empty_response_unwritable_counterexample:
  "response_parts (Some \<lparr>candidates = Some []\<rparr>) = [] \<and>
   fst (generateAndDebug readonlyEnv ''TESTCAFE'' emptyWorld) =
     Inl (JsError ''EISDIR: illegal operation on a directory, open'' None) \<and>
   new_events emptyWorld (snd (generateAndDebug readonlyEnv ''TESTCAFE'' emptyWorld)) =
     [ConsoleLog (GeneratingTests ''TESTCAFE''),
      ConsoleLog (ExecutingAttempt ''TESTCAFE'' 1),
      GenerateContent [promptText readonlyEnv ''TESTCAFE'' [], Some userPrompt]
        (Resolved (Some \<lparr>candidates = Some []\<rparr>)),
      WriteFileSync ''/repo/tests/google_navigation.testcafe.ts''
        (''// *** This code is generated by AI Agent ***'' @ NL @ NL)
        (WriteThrew (JsError ''EISDIR: illegal operation on a directory, open'' None) None)] \<and>
   filter is_command
     (new_events emptyWorld (snd (generateAndDebug readonlyEnv ''TESTCAFE'' emptyWorld))) = [] \<and>
   files (snd (generateAndDebug readonlyEnv ''TESTCAFE'' emptyWorld))
     ''/repo/tests/google_navigation.testcafe.ts'' = None"
proof -
  have s: "scriptText (Some \<lparr>candidates = Some []\<rparr>) =
      ''// *** This code is generated by AI Agent ***'' @ NL @ NL"
    by (rule scriptText_no_code) (simp add: response_parts_def)
  show ?thesis
    by (simp add: run_defs readonlyEnv_simps path_defs new_events_def s response_parts_def)
qed

text \<open>
  Claim C10, corrected. When the parts taken from a response have neither a text nor an
  executable-code field (in particular when there are none: no response, no candidates,
  an empty candidate list, a first candidate without content, a content without parts
  or with an empty list of parts), \<open>generateTestScript\<close> does not throw: it returns the
  comment \<^verbatim>\<open>// *** This code is generated by AI Agent ***\<close> followed by an empty line and
  nothing else, and the attempt goes on to write that script to the output path. When
  the write succeeds, the attempt goes on to run the command on the script; when the
  write throws, the exception ends the loop and no command is run.
\<close>

theorem empty_response_gives_provenance_only:
  assumes "\<forall>q \<in> set (response_parts resp). part_text q = None \<and> executableCode q = None"
  shows "scriptText resp = ''// *** This code is generated by AI Agent ***'' @ NL @ NL \<and>
     (generateContent e w [promptText e fw le, Some userPrompt] = Resolved resp \<longrightarrow>
        fst (generateTestScript e fw le w) =
          Inr (''// *** This code is generated by AI Agent ***'' @ NL @ NL)) \<and>
     (n < MAX_ATTEMPTS \<and> runCommand e fw p = Inr cmd \<and>
      generateContent e (emit (ConsoleLog (ExecutingAttempt fw (Suc n))) w)
        [promptText e fw le, Some userPrompt] = Resolved resp \<and>
      writeFile e
        (emit (GenerateContent [promptText e fw le, Some userPrompt] (Resolved resp))
           (emit (ConsoleLog (ExecutingAttempt fw (Suc n))) w))
        p (''// *** This code is generated by AI Agent ***'' @ NL @ NL) = Written \<longrightarrow>
        (\<exists>s rest. new_events w (snd (generateAndDebug_loop e fw p n False le w)) =
           ConsoleLog (ExecutingAttempt fw (Suc n)) #
           GenerateContent [promptText e fw le, Some userPrompt] (Resolved resp) #
           WriteFileSync p (''// *** This code is generated by AI Agent ***'' @ NL @ NL) Written #
           ExecPromise (shellLine e cmd) s # rest)) \<and>
     (n < MAX_ATTEMPTS \<and>
      generateContent e (emit (ConsoleLog (ExecutingAttempt fw (Suc n))) w)
        [promptText e fw le, Some userPrompt] = Resolved resp \<and>
      writeFile e
        (emit (GenerateContent [promptText e fw le, Some userPrompt] (Resolved resp))
           (emit (ConsoleLog (ExecutingAttempt fw (Suc n))) w))
        p (''// *** This code is generated by AI Agent ***'' @ NL @ NL) = WriteThrew err left \<longrightarrow>
        fst (generateAndDebug_loop e fw p n False le w) = Inl err \<and>
        new_events w (snd (generateAndDebug_loop e fw p n False le w)) =
          [ConsoleLog (ExecutingAttempt fw (Suc n)),
           GenerateContent [promptText e fw le, Some userPrompt] (Resolved resp),
           WriteFileSync p (''// *** This code is generated by AI Agent ***'' @ NL @ NL)
             (WriteThrew err left)]) \<and>
     response_parts None = [] \<and>
     (candidates r = None \<or> candidates r = Some [] \<longrightarrow> response_parts (Some r) = []) \<and>
     (candidates r = Some (c # cs) \<and> candidate_content c = None \<longrightarrow>
        response_parts (Some r) = []) \<and>
     (candidates r = Some (c # cs) \<and> candidate_content c = Some ct \<and>
      (parts ct = None \<or> parts ct = Some []) \<longrightarrow> response_parts (Some r) = [])"
proof -
  let ?script = "''// *** This code is generated by AI Agent ***'' @ NL @ NL"
  have s: "scriptText resp = ?script"
    using assms by (rule scriptText_no_code)
  have g: "generateContent e w [promptText e fw le, Some userPrompt] = Resolved resp \<longrightarrow>
        fst (generateTestScript e fw le w) = Inr ?script"
    by (simp add: generateTestScript_def Let_def s)
  have l: "n < MAX_ATTEMPTS \<and> runCommand e fw p = Inr cmd \<and>
      generateContent e (emit (ConsoleLog (ExecutingAttempt fw (Suc n))) w)
        [promptText e fw le, Some userPrompt] = Resolved resp \<and>
      writeFile e
        (emit (GenerateContent [promptText e fw le, Some userPrompt] (Resolved resp))
           (emit (ConsoleLog (ExecutingAttempt fw (Suc n))) w))
        p ?script = Written \<longrightarrow>
        (\<exists>s rest. new_events w (snd (generateAndDebug_loop e fw p n False le w)) =
           ConsoleLog (ExecutingAttempt fw (Suc n)) #
           GenerateContent [promptText e fw le, Some userPrompt] (Resolved resp) #
           WriteFileSync p ?script Written # ExecPromise (shellLine e cmd) s # rest)"
    using loop_first_attempt[of n e fw p cmd w le resp] unfolding s by blast
  have t: "n < MAX_ATTEMPTS \<and>
      generateContent e (emit (ConsoleLog (ExecutingAttempt fw (Suc n))) w)
        [promptText e fw le, Some userPrompt] = Resolved resp \<and>
      writeFile e
        (emit (GenerateContent [promptText e fw le, Some userPrompt] (Resolved resp))
           (emit (ConsoleLog (ExecutingAttempt fw (Suc n))) w))
        p ?script = WriteThrew err left \<longrightarrow>
        fst (generateAndDebug_loop e fw p n False le w) = Inl err \<and>
        new_events w (snd (generateAndDebug_loop e fw p n False le w)) =
          [ConsoleLog (ExecutingAttempt fw (Suc n)),
           GenerateContent [promptText e fw le, Some userPrompt] (Resolved resp),
           WriteFileSync p ?script (WriteThrew err left)]"
    using loop_first_write_threw[of n e fw w le resp p err left] unfolding s by blast
  have r: "response_parts None = []"
    "candidates r = None \<or> candidates r = Some [] \<longrightarrow> response_parts (Some r) = []"
    "candidates r = Some (c # cs) \<and> candidate_content c = None \<longrightarrow>
        response_parts (Some r) = []"
    "candidates r = Some (c # cs) \<and> candidate_content c = Some ct \<and>
      (parts ct = None \<or> parts ct = Some []) \<longrightarrow> response_parts (Some r) = []"
    by (auto simp: response_parts_def)
  from s g l t r show ?thesis by (intro conjI)
qed

text \<open>
  On a service that answers with no candidate and a shell whose command fails: the
  near-empty script is written and the command is run on it. On the same service with
  an output path that cannot be written: the loop ends with the error of the write.
\<close>

theorem empty_response_gives_provenance_only_witness:
  "response_parts (Some \<lparr>candidates = Some []\<rparr>) = [] \<and>
   fst (generateTestScript silentEnv ''TESTCAFE'' [] emptyWorld) =
     Inr (''// *** This code is generated by AI Agent ***'' @ NL @ NL) \<and>
   take 4 (new_events emptyWorld (snd (generateAndDebug_loop silentEnv ''TESTCAFE''
       ''/repo/tests/google_navigation.testcafe.ts'' 0 False [] emptyWorld))) =
     [ConsoleLog (ExecutingAttempt ''TESTCAFE'' 1),
      GenerateContent [promptText silentEnv ''TESTCAFE'' [], Some userPrompt]
        (Resolved (Some \<lparr>candidates = Some []\<rparr>)),
      WriteFileSync ''/repo/tests/google_navigation.testcafe.ts''
        (''// *** This code is generated by AI Agent ***'' @ NL @ NL) Written,
      ExecPromise ''cd /repo/tests && npx testcafe chrome google_navigation.testcafe.ts''
        (Rejected (JsError ''Command failed'' (Some ''No tests found'')))] \<and>
   fst (generateAndDebug_loop readonlyEnv ''TESTCAFE''
       ''/repo/tests/google_navigation.testcafe.ts'' 0 False [] emptyWorld) =
     Inl (JsError ''EISDIR: illegal operation on a directory, open'' None) \<and>
   new_events emptyWorld (snd (generateAndDebug_loop readonlyEnv ''TESTCAFE''
       ''/repo/tests/google_navigation.testcafe.ts'' 0 False [] emptyWorld)) =
     [ConsoleLog (ExecutingAttempt ''TESTCAFE'' 1),
      GenerateContent [promptText readonlyEnv ''TESTCAFE'' [], Some userPrompt]
        (Resolved (Some \<lparr>candidates = Some []\<rparr>)),
      WriteFileSync ''/repo/tests/google_navigation.testcafe.ts''
        (''// *** This code is generated by AI Agent ***'' @ NL @ NL)
        (WriteThrew (JsError ''EISDIR: illegal operation on a directory, open'' None) None)]"
proof -
  let ?resp = "Some \<lparr>candidates = Some []\<rparr>"
  let ?p = "''/repo/tests/google_navigation.testcafe.ts''"
  let ?cmd = "''npx testcafe chrome google_navigation.testcafe.ts''"
  let ?script = "''// *** This code is generated by AI Agent ***'' @ NL @ NL"
  have parts: "response_parts ?resp = []" by (simp add: response_parts_def)
  then have hyp: "\<forall>q \<in> set (response_parts ?resp). part_text q = None \<and> executableCode q = None"
    by simp
  note inst = empty_response_gives_provenance_only[OF hyp, of silentEnv emptyWorld "''TESTCAFE''"
      "[]" 0 ?p ?cmd]
  have cmd: "runCommand silentEnv ''TESTCAFE'' ?p = Inr ?cmd"
    by (simp add: runCommand_def path_basename_def)
  have n: "0 < MAX_ATTEMPTS" by (simp add: MAX_ATTEMPTS_def)
  have s: "scriptText ?resp = ?script"
    using hyp by (rule scriptText_no_code)
  from inst[THEN conjunct2, THEN conjunct1]
  have "fst (generateTestScript silentEnv ''TESTCAFE'' [] emptyWorld) = Inr ?script"
    by (simp add: silentEnv_simps)
  moreover from inst[THEN conjunct2, THEN conjunct2, THEN conjunct1] n cmd obtain s rest where
    "new_events emptyWorld (snd (generateAndDebug_loop silentEnv ''TESTCAFE'' ?p 0 False []
        emptyWorld)) =
      ConsoleLog (ExecutingAttempt ''TESTCAFE'' (Suc 0)) #
      GenerateContent [promptText silentEnv ''TESTCAFE'' [], Some userPrompt] (Resolved ?resp) #
      WriteFileSync ?p ?script Written # ExecPromise (shellLine silentEnv ?cmd) s # rest"
    by (auto simp: silentEnv_simps)
  moreover have "new_events emptyWorld (snd (generateAndDebug_loop silentEnv ''TESTCAFE'' ?p 0
      False [] emptyWorld)) ! 3 =
      ExecPromise ''cd /repo/tests && npx testcafe chrome google_navigation.testcafe.ts''
        (Rejected (JsError ''Command failed'' (Some ''No tests found'')))"
    by (simp add: run_defs silentEnv_simps path_defs new_events_def)
  moreover from empty_response_gives_provenance_only[OF hyp, of readonlyEnv emptyWorld
      "''TESTCAFE''" "[]" 0 ?p ?cmd "JsError ''EISDIR: illegal operation on a directory, open'' None"
      None, THEN conjunct2, THEN conjunct2, THEN conjunct2, THEN conjunct1] n
  have "fst (generateAndDebug_loop readonlyEnv ''TESTCAFE'' ?p 0 False [] emptyWorld) =
      Inl (JsError ''EISDIR: illegal operation on a directory, open'' None) \<and>
    new_events emptyWorld (snd (generateAndDebug_loop readonlyEnv ''TESTCAFE'' ?p 0 False []
        emptyWorld)) =
      [ConsoleLog (ExecutingAttempt ''TESTCAFE'' (Suc 0)),
       GenerateContent [promptText readonlyEnv ''TESTCAFE'' [], Some userPrompt] (Resolved ?resp),
       WriteFileSync ?p ?script
         (WriteThrew (JsError ''EISDIR: illegal operation on a directory, open'' None) None)]"
    by (simp add: readonlyEnv_simps)
  ultimately show ?thesis using parts by simp
qed

section \<open>The output file\<close>

lemma loop_trace_rejected:
  "loop_trace e fw p line n le evs r \<Longrightarrow> evs = pre @ [GenerateContent req (Rejected err)] \<Longrightarrow>
     filter is_write evs = [] \<and> filter is_request evs = [GenerateContent req (Rejected err)] \<or>
     (\<exists>rs req' resp'.
        filter is_request evs =
          rs @ [GenerateContent req' (Resolved resp'), GenerateContent req (Rejected err)] \<and>
        filter is_write evs \<noteq> [] \<and>
        last (filter is_write evs) = WriteFileSync p (scriptText resp') Written)"
proof (induction arbitrary: pre rule: loop_trace.induct)
  case (run_failed n err' rest r le resp)
  let ?x = "GenerateContent req (Rejected err)"
  have "rest \<noteq> []"
  proof
    assume "rest = []"
    with run_failed.prems show False by (simp add: Cons_eq_append_conv append_eq_Cons_conv)
  qed
  then have rest: "rest = butlast rest @ [last rest]" by simp
  from run_failed.prems \<open>rest \<noteq> []\<close> have "last rest = ?x"
    by (metis last_ConsR last_appendR last_snoc list.distinct(1))
  with rest have "rest = butlast rest @ [?x]" by simp
  from run_failed.IH[OF this] show ?case
  proof (elim disjE conjE exE)
    assume "filter is_write rest = []" "filter is_request rest = [?x]"
    then have "filter is_request (ConsoleLog (ExecutingAttempt fw (Suc n)) #
        GenerateContent [promptText e fw le, Some userPrompt] (Resolved resp) #
        WriteFileSync p (scriptText resp) Written # ExecPromise line (Rejected err') #
        ConsoleWarn (FailedOnAttempt fw (Suc n) (caught_output err')) # rest) =
        [] @ [GenerateContent [promptText e fw le, Some userPrompt] (Resolved resp), ?x]"
      and "last (filter is_write (ConsoleLog (ExecutingAttempt fw (Suc n)) #
        GenerateContent [promptText e fw le, Some userPrompt] (Resolved resp) #
        WriteFileSync p (scriptText resp) Written # ExecPromise line (Rejected err') #
        ConsoleWarn (FailedOnAttempt fw (Suc n) (caught_output err')) # rest)) =
        WriteFileSync p (scriptText resp) Written"
      by simp_all
    then show ?thesis by (intro disjI2 exI conjI) simp_all
  next
    fix rs req' resp'
    assume "filter is_request rest = rs @ [GenerateContent req' (Resolved resp'), ?x]"
      "filter is_write rest \<noteq> []"
      "last (filter is_write rest) = WriteFileSync p (scriptText resp') Written"
    then have "filter is_request (ConsoleLog (ExecutingAttempt fw (Suc n)) #
        GenerateContent [promptText e fw le, Some userPrompt] (Resolved resp) #
        WriteFileSync p (scriptText resp) Written # ExecPromise line (Rejected err') #
        ConsoleWarn (FailedOnAttempt fw (Suc n) (caught_output err')) # rest) =
        (GenerateContent [promptText e fw le, Some userPrompt] (Resolved resp) # rs) @
        [GenerateContent req' (Resolved resp'), ?x]"
      and "last (filter is_write (ConsoleLog (ExecutingAttempt fw (Suc n)) #
        GenerateContent [promptText e fw le, Some userPrompt] (Resolved resp) #
        WriteFileSync p (scriptText resp) Written # ExecPromise line (Rejected err') #
        ConsoleWarn (FailedOnAttempt fw (Suc n) (caught_output err')) # rest)) =
        WriteFileSync p (scriptText resp') Written"
      by simp_all
    then show ?thesis by (intro disjI2 exI conjI) simp_all
  qed
qed (auto simp: Cons_eq_append_conv append_eq_Cons_conv)

lemma changingEnv_simps:
  "projectRoot changingEnv = ''/repo''"
  "generateContent changingEnv w req =
     Resolved (responseOf
          [codePart (if length (filter is_request (log w)) = 0 then ''one()''
                     else if length (filter is_request (log w)) = 1 then ''two()''
                     else ''three()'')])"
  "writeFile changingEnv w path data = Written"
  "execPromise changingEnv w line = Rejected (JsError ''Command failed'' (Some ''1 failing''))"
  by (simp_all add: changingEnv_def)

lemma abortingEnv_simps:
  "projectRoot abortingEnv = ''/repo''"
  "generateContent abortingEnv w req =
     (if filter is_request (log w) = [] then Resolved (responseOf [codePart ''one()''])
      else Rejected (JsError ''503 unavailable'' None))"
  "writeFile abortingEnv w path data = Written"
  "execPromise abortingEnv w line = Rejected (JsError ''Command failed'' (Some ''1 failing''))"
  by (simp_all add: abortingEnv_def)

lemma scriptText_codePart:
  "scriptText (responseOf [codePart (c # cs)]) =
     ''// *** This code is generated by AI Agent ***'' @ NL @ NL @ (c # cs) @ NL"
  by (simp add: scriptText_def responseOf_def response_parts_def codePart_def appendPart_def
      part_code_def provenance_def)

text \<open>
  Claim C6, as the specification states it, does not hold: the loop may end with the
  script of an earlier attempt in the file, or with no file. On the first run, the
  first SELENIUM attempt writes the script \<^verbatim>\<open>one()\<close> and its command fails, and the
  request of the second attempt is rejected: the loop ends there, by the exception, and
  the file holds the script of the first attempt. On the second run the first request
  is rejected: the loop ends with no file at the output path.
\<close>

theorem rejected_request_leaves_earlier_script_counterexample:
  "fst (generateAndDebug abortingEnv ''SELENIUM'' emptyWorld) =
     Inl (JsError ''503 unavailable'' None) \<and>
   new_events emptyWorld (snd (generateAndDebug abortingEnv ''SELENIUM'' emptyWorld)) =
     [ConsoleLog (GeneratingTests ''SELENIUM''),
      ConsoleLog (ExecutingAttempt ''SELENIUM'' 1),
      GenerateContent [promptText abortingEnv ''SELENIUM'' [], Some userPrompt]
        (Resolved (responseOf [codePart ''one()''])),
      WriteFileSync ''/repo/tests/google_navigation.selenium.spec.cjs''
        (''// *** This code is generated by AI Agent ***'' @ NL @ NL @ ''one()'' @ NL) Written,
      ExecPromise (''cd /repo/tests && npx mocha '' @ [CHR 0x22] @
          ''/repo/tests/google_navigation.selenium.spec.cjs'' @ [CHR 0x22])
        (Rejected (JsError ''Command failed'' (Some ''1 failing''))),
      ConsoleWarn (FailedOnAttempt ''SELENIUM'' 1 ''1 failing''),
      ConsoleLog (ExecutingAttempt ''SELENIUM'' 2),
      GenerateContent [promptText abortingEnv ''SELENIUM'' ''1 failing'', Some userPrompt]
        (Rejected (JsError ''503 unavailable'' None))] \<and>
   files (snd (generateAndDebug abortingEnv ''SELENIUM'' emptyWorld))
     ''/repo/tests/google_navigation.selenium.spec.cjs'' =
     Some (''// *** This code is generated by AI Agent ***'' @ NL @ NL @ ''one()'' @ NL) \<and>
   fst (generateAndDebug rejectingEnv ''SELENIUM'' emptyWorld) =
     Inl (JsError ''429 quota exceeded'' None) \<and>
   files (snd (generateAndDebug rejectingEnv ''SELENIUM'' emptyWorld))
     ''/repo/tests/google_navigation.selenium.spec.cjs'' = None"
  by (simp add: run_defs abortingEnv_simps rejectingEnv_simps path_defs path_resolve_def
      new_events_def scriptText_codePart)

text \<open>
  Claim C6, corrected. Let \<open>generateAndDebug\<close> end, by return or by exception, for a
  framework with output file \<open>fname\<close>. (1) When it returns (the loop ended in a success
  or with all attempts used), the run made at least one request, the file at the fixed
  output path holds exactly the script returned for the last request, and there are as
  many writes as requests. (2) No file at another path is created or changed. (3) Every
  write of the run went to that one path. (4) After a run with writes, the path holds
  what the last write left there: its data when it succeeded (no versioning, no
  rollback), and what the failed write left otherwise. (5) After a run without writes
  the files are unchanged. (6) When the run ends with a rejected request, the exception
  leaves \<open>generateAndDebug\<close> and the last attempt wrote nothing: either it was the first
  attempt and the files are unchanged, or the file holds the script returned for the
  request before it.
\<close>

theorem output_file_holds_last_script:
  assumes "OUTPUT_FILES fw = Some fname" and "generateAndDebug e fw w = (r, w')"
  shows "(r = Inr () \<longrightarrow>
       (\<exists>req resp. filter is_request (new_events w w') \<noteq> [] \<and>
          last (filter is_request (new_events w w')) = GenerateContent req (Resolved resp) \<and>
          files w' (path_join (TESTDIR e) fname) = Some (scriptText resp)) \<and>
       length (filter is_write (new_events w w')) = length (filter is_request (new_events w w'))) \<and>
     (\<forall>q. q \<noteq> path_join (TESTDIR e) fname \<longrightarrow> files w' q = files w q) \<and>
     (\<forall>ev \<in> set (new_events w w'). is_write ev \<longrightarrow>
        (\<exists>d outcome. ev = WriteFileSync (path_join (TESTDIR e) fname) d outcome)) \<and>
     (filter is_write (new_events w w') \<noteq> [] \<longrightarrow>
        (\<exists>d outcome. last (filter is_write (new_events w w')) =
               WriteFileSync (path_join (TESTDIR e) fname) d outcome \<and>
             files w' (path_join (TESTDIR e) fname) =
               (case outcome of Written \<Rightarrow> Some d | WriteThrew err left \<Rightarrow> left))) \<and>
     (filter is_write (new_events w w') = [] \<longrightarrow> files w' = files w) \<and>
     (new_events w w' = pre @ [GenerateContent req (Rejected err)] \<longrightarrow>
        r = Inl err \<and>
        (filter is_request (new_events w w') = [GenerateContent req (Rejected err)] \<and>
         filter is_write (new_events w w') = [] \<and> files w' = files w \<or>
         (\<exists>rs req' resp'.
            filter is_request (new_events w w') =
              rs @ [GenerateContent req' (Resolved resp'), GenerateContent req (Rejected err)] \<and>
            files w' (path_join (TESTDIR e) fname) = Some (scriptText resp'))))"
proof -
  let ?p = "path_join (TESTDIR e) fname"
  from assms obtain evs lr line tail where
    t: "loop_trace e fw ?p line 0 [] evs lr"
      "log w' = log w @ ConsoleLog (GeneratingTests fw) # evs @ tail"
      "files w' = replay evs (files w)"
      "(\<exists>err. lr = Inl err \<and> r = Inl err \<and> tail = []) \<or>
       (\<exists>k le. lr = Inr (k, True, le) \<and> r = Inr () \<and> tail = []) \<or>
       (\<exists>le. lr = Inr (MAX_ATTEMPTS, False, le) \<and> r = Inr () \<and>
          tail = [ConsoleError (AllAttemptsFailed fw MAX_ATTEMPTS le)])"
    by (rule generateAndDebug_trace)
  from t(4) have tail: "filter is_request tail = []" "filter is_write tail = []"
    "\<forall>ev \<in> set tail. \<not> is_write ev" by auto
  have ne: "new_events w w' = ConsoleLog (GeneratingTests fw) # evs @ tail"
    using t(2) by (rule new_events_append)
  have rq: "filter is_request (new_events w w') = filter is_request evs"
    and wr: "filter is_write (new_events w w') = filter is_write evs"
    using tail by (simp_all add: ne)
  have 1: "r = Inr () \<longrightarrow>
       (\<exists>req resp. filter is_request (new_events w w') \<noteq> [] \<and>
          last (filter is_request (new_events w w')) = GenerateContent req (Resolved resp) \<and>
          files w' ?p = Some (scriptText resp)) \<and>
       length (filter is_write (new_events w w')) = length (filter is_request (new_events w w'))"
  proof
    assume "r = Inr ()"
    with t(4) obtain x where "lr = Inr x" by auto
    moreover have "0 < MAX_ATTEMPTS" by (simp add: MAX_ATTEMPTS_def)
    ultimately obtain req resp where
      f: "filter is_request evs \<noteq> []"
        "last (filter is_request evs) = GenerateContent req (Resolved resp)"
        "filter is_write evs \<noteq> []"
        "last (filter is_write evs) = WriteFileSync ?p (scriptText resp) Written"
        "length (filter is_write evs) = length (filter is_request evs)"
      using loop_trace_returns[OF t(1)] by blast
    from replay_at_last_write[OF f(3,4)] t(3) have "files w' ?p = Some (scriptText resp)"
      by simp
    with f show "(\<exists>req resp. filter is_request (new_events w w') \<noteq> [] \<and>
          last (filter is_request (new_events w w')) = GenerateContent req (Resolved resp) \<and>
          files w' ?p = Some (scriptText resp)) \<and>
       length (filter is_write (new_events w w')) = length (filter is_request (new_events w w'))"
      by (auto simp: rq wr)
  qed
  have 2: "\<forall>q. q \<noteq> ?p \<longrightarrow> files w' q = files w q"
    using loop_trace_other_paths[OF t(1)] t(3) by simp
  have 3: "\<forall>ev \<in> set (new_events w w'). is_write ev \<longrightarrow>
      (\<exists>d outcome. ev = WriteFileSync ?p d outcome)"
    using loop_trace_writes[OF t(1)] tail(3) by (auto simp: ne)
  have 4: "filter is_write (new_events w w') \<noteq> [] \<longrightarrow>
        (\<exists>d outcome. last (filter is_write (new_events w w')) = WriteFileSync ?p d outcome \<and>
             files w' ?p = (case outcome of Written \<Rightarrow> Some d | WriteThrew err left \<Rightarrow> left))"
    using loop_trace_last_write[OF t(1), of "files w"] t(3) by (simp add: wr)
  have 5: "filter is_write (new_events w w') = [] \<longrightarrow> files w' = files w"
    using t(3) by (simp add: wr replay_no_write)
  have 6: "new_events w w' = pre @ [GenerateContent req (Rejected err)] \<longrightarrow>
        r = Inl err \<and>
        (filter is_request (new_events w w') = [GenerateContent req (Rejected err)] \<and>
         filter is_write (new_events w w') = [] \<and> files w' = files w \<or>
         (\<exists>rs req' resp'.
            filter is_request (new_events w w') =
              rs @ [GenerateContent req' (Resolved resp'), GenerateContent req (Rejected err)] \<and>
            files w' ?p = Some (scriptText resp')))"
  proof
    let ?x = "GenerateContent req (Rejected err)"
    assume a: "new_events w w' = pre @ [?x]"
    have nt: "tail = []"
    proof (rule ccontr)
      assume "tail \<noteq> []"
      with t(4) obtain le where "tail = [ConsoleError (AllAttemptsFailed fw MAX_ATTEMPTS le)]"
        by auto
      with a ne show False by (simp add: Cons_eq_append_conv append_eq_append_conv2
            append_eq_Cons_conv)
    qed
    have "evs \<noteq> []"
    proof
      assume "evs = []"
      with a ne nt show False by (simp add: Cons_eq_append_conv append_eq_Cons_conv)
    qed
    then have "evs = butlast evs @ [last evs]" by simp
    moreover from a ne nt \<open>evs \<noteq> []\<close> have "last evs = ?x"
      by (metis append_Nil2 last_ConsR last_snoc)
    ultimately have evs: "evs = butlast evs @ [?x]" by simp
    from loop_trace_thrown[OF t(1), of err "butlast evs" ?x "[]"] evs
    have "lr = Inl err" by simp
    with t(4) have r: "r = Inl err" by auto
    from loop_trace_rejected[OF t(1) evs] show "r = Inl err \<and>
        (filter is_request (new_events w w') = [?x] \<and>
         filter is_write (new_events w w') = [] \<and> files w' = files w \<or>
         (\<exists>rs req' resp'.
            filter is_request (new_events w w') =
              rs @ [GenerateContent req' (Resolved resp'), ?x] \<and>
            files w' ?p = Some (scriptText resp')))"
    proof (elim disjE conjE exE)
      assume "filter is_write evs = []" "filter is_request evs = [?x]"
      with r t(3) show ?thesis by (simp add: rq wr replay_no_write)
    next
      fix rs req' resp'
      assume b: "filter is_request evs = rs @ [GenerateContent req' (Resolved resp'), ?x]"
        "filter is_write evs \<noteq> []"
        "last (filter is_write evs) = WriteFileSync ?p (scriptText resp') Written"
      from replay_at_last_write[OF b(2,3)] t(3) have "files w' ?p = Some (scriptText resp')"
        by simp
      with r b(1) show ?thesis unfolding rq by blast
    qed
  qed
  from 1 2 3 4 5 6 show ?thesis by (intro conjI)
qed

text \<open>
  Three failing SELENIUM attempts with three different scripts: all three writes go to
  the one output path, the file ends with the third script, and no other file appears.
  And the run whose second request is rejected: the file holds the first script.
\<close>

theorem output_file_holds_last_script_witness:
  "OUTPUT_FILES ''SELENIUM'' = Some ''google_navigation.selenium.spec.cjs'' \<and>
   fst (generateAndDebug changingEnv ''SELENIUM'' emptyWorld) = Inr () \<and>
   filter is_write (new_events emptyWorld (snd (generateAndDebug changingEnv ''SELENIUM'' emptyWorld))) =
     [WriteFileSync ''/repo/tests/google_navigation.selenium.spec.cjs''
        (''// *** This code is generated by AI Agent ***'' @ NL @ NL @ ''one()'' @ NL) Written,
      WriteFileSync ''/repo/tests/google_navigation.selenium.spec.cjs''
        (''// *** This code is generated by AI Agent ***'' @ NL @ NL @ ''two()'' @ NL) Written,
      WriteFileSync ''/repo/tests/google_navigation.selenium.spec.cjs''
        (''// *** This code is generated by AI Agent ***'' @ NL @ NL @ ''three()'' @ NL) Written] \<and>
   files (snd (generateAndDebug changingEnv ''SELENIUM'' emptyWorld))
     ''/repo/tests/google_navigation.selenium.spec.cjs'' =
     Some (''// *** This code is generated by AI Agent ***'' @ NL @ NL @ ''three()'' @ NL) \<and>
   files (snd (generateAndDebug changingEnv ''SELENIUM'' emptyWorld))
     ''/repo/tests/google_navigation.playwright.spec.ts'' = None \<and>
   fst (generateAndDebug abortingEnv ''SELENIUM'' emptyWorld) =
     Inl (JsError ''503 unavailable'' None) \<and>
   files (snd (generateAndDebug abortingEnv ''SELENIUM'' emptyWorld))
     ''/repo/tests/google_navigation.selenium.spec.cjs'' =
     Some (''// *** This code is generated by AI Agent ***'' @ NL @ NL @ ''one()'' @ NL)"
proof -
  let ?run = "generateAndDebug changingEnv ''SELENIUM'' emptyWorld"
  let ?abort = "generateAndDebug abortingEnv ''SELENIUM'' emptyWorld"
  let ?p = "''/repo/tests/google_navigation.selenium.spec.cjs''"
  let ?head = "''// *** This code is generated by AI Agent ***'' @ NL @ NL"
  have known: "OUTPUT_FILES ''SELENIUM'' = Some ''google_navigation.selenium.spec.cjs''"
    by (simp add: OUTPUT_FILES_def)
  have run: "?run = (fst ?run, snd ?run)" by simp
  have abort: "?abort = (fst ?abort, snd ?abort)" by simp
  have p: "path_join (TESTDIR changingEnv) ''google_navigation.selenium.spec.cjs'' = ?p"
    "path_join (TESTDIR abortingEnv) ''google_navigation.selenium.spec.cjs'' = ?p"
    by (simp_all add: path_defs changingEnv_simps abortingEnv_simps)
  have r: "fst ?run = Inr ()"
    by (simp add: run_defs changingEnv_simps)
  have wr: "filter is_write (new_events emptyWorld (snd ?run)) =
     [WriteFileSync ?p (?head @ ''one()'' @ NL) Written,
      WriteFileSync ?p (?head @ ''two()'' @ NL) Written,
      WriteFileSync ?p (?head @ ''three()'' @ NL) Written]"
    by (simp add: run_defs changingEnv_simps path_defs new_events_def scriptText_codePart)
  have rq: "last (filter is_request (new_events emptyWorld (snd ?run))) =
      GenerateContent [promptText changingEnv ''SELENIUM'' ''1 failing'', Some userPrompt]
        (Resolved (responseOf [codePart ''three()'']))"
    by (simp add: run_defs changingEnv_simps path_defs new_events_def)
  note inst = output_file_holds_last_script[OF known run, unfolded p]
  from inst[THEN conjunct1] r obtain req resp where
    "last (filter is_request (new_events emptyWorld (snd ?run))) =
       GenerateContent req (Resolved resp)"
    "files (snd ?run) ?p = Some (scriptText resp)"
    by blast
  with rq have "files (snd ?run) ?p = Some (scriptText (responseOf [codePart ''three()'']))"
    by simp
  then have last: "files (snd ?run) ?p = Some (?head @ ''three()'' @ NL)"
    by (simp add: scriptText_codePart)
  from inst[THEN conjunct2, THEN conjunct1]
  have other: "files (snd ?run) ''/repo/tests/google_navigation.playwright.spec.ts'' =
      files emptyWorld ''/repo/tests/google_navigation.playwright.spec.ts''"
    by simp
  let ?x = "GenerateContent [promptText abortingEnv ''SELENIUM'' ''1 failing'', Some userPrompt]
        (Rejected (JsError ''503 unavailable'' None))"
  let ?first = "GenerateContent [promptText abortingEnv ''SELENIUM'' [], Some userPrompt]
        (Resolved (responseOf [codePart ''one()'']))"
  let ?pre = "[ConsoleLog (GeneratingTests ''SELENIUM''),
      ConsoleLog (ExecutingAttempt ''SELENIUM'' 1), ?first,
      WriteFileSync ?p (?head @ ''one()'' @ NL) Written,
      ExecPromise (''cd /repo/tests && npx mocha '' @ [CHR 0x22] @
          ''/repo/tests/google_navigation.selenium.spec.cjs'' @ [CHR 0x22])
        (Rejected (JsError ''Command failed'' (Some ''1 failing''))),
      ConsoleWarn (FailedOnAttempt ''SELENIUM'' 1 ''1 failing''),
      ConsoleLog (ExecutingAttempt ''SELENIUM'' 2)]"
  have aev: "new_events emptyWorld (snd ?abort) = ?pre @ [?x]"
    by (simp add: run_defs abortingEnv_simps path_defs path_resolve_def new_events_def
        scriptText_codePart)
  then have arq: "filter is_request (new_events emptyWorld (snd ?abort)) = [?first, ?x]"
    by simp
  note ainst = output_file_holds_last_script[OF known abort, unfolded p,
      of ?pre "[promptText abortingEnv ''SELENIUM'' ''1 failing'', Some userPrompt]"
      "JsError ''503 unavailable'' None"]
  from ainst aev have ar: "fst ?abort = Inl (JsError ''503 unavailable'' None)"
    by (elim conjE) (rule conjunct1, erule mp)
  from ainst aev have "filter is_request (new_events emptyWorld (snd ?abort)) = [?x] \<and>
         filter is_write (new_events emptyWorld (snd ?abort)) = [] \<and>
         files (snd ?abort) = files emptyWorld \<or>
         (\<exists>rs req' resp'.
            filter is_request (new_events emptyWorld (snd ?abort)) =
              rs @ [GenerateContent req' (Resolved resp'), ?x] \<and>
            files (snd ?abort) ?p = Some (scriptText resp'))"
    by (elim conjE) (rule conjunct2, erule mp)
  then have "files (snd ?abort) ?p = Some (scriptText (responseOf [codePart ''one()'']))"
    unfolding arq by (auto simp: append_eq_Cons_conv Cons_eq_append_conv)
  then have afile: "files (snd ?abort) ?p = Some (?head @ ''one()'' @ NL)"
    by (simp add: scriptText_codePart)
  from known r wr last other ar afile show ?thesis by (simp add: emptyWorld_def)
qed

section \<open>The events of a run\<close>

lemma loops_started_append: "loops_started (xs @ ys) = loops_started xs @ loops_started ys"
  by (induction xs rule: loops_started.induct) auto

lemma loop_trace_events:
  "loop_trace e fw p line n le evs r \<Longrightarrow> ev \<in> set evs \<Longrightarrow>
     (\<forall>m. ev \<noteq> ConsoleError m) \<and> (\<forall>f. ev \<noteq> ConsoleLog (GeneratingTests f))"
  by (induction rule: loop_trace.induct) auto

lemma loops_started_none:
  "\<forall>ev \<in> set evs. \<forall>f. ev \<noteq> ConsoleLog (GeneratingTests f) \<Longrightarrow> loops_started evs = []"
  by (induction evs rule: loops_started.induct) auto

lemma split_append:
  assumes "xs @ ys = pre @ x # post"
  shows "(\<exists>post'. xs = pre @ x # post' \<and> post = post' @ ys) \<or>
         (\<exists>pre'. pre = xs @ pre' \<and> ys = pre' @ x # post)"
proof -
  from assms consider us where "xs = pre @ us" "us @ ys = x # post"
    | us where "xs @ us = pre" "ys = us @ x # post"
    by (auto simp: append_eq_append_conv2)
  then show ?thesis
  proof cases
    case 1
    then show ?thesis by (cases us) auto
  next
    case 2
    then show ?thesis by auto
  qed
qed

lemma thrown_by_iff:
  "thrown_by ev = Some err \<longleftrightarrow>
     (\<exists>req. ev = GenerateContent req (Rejected err)) \<or>
     (\<exists>q d left. ev = WriteFileSync q d (WriteThrew err left))"
  by (induction ev rule: thrown_by.induct) auto

lemma last_thrown_iff:
  "evs \<noteq> [] \<and> thrown_by (last evs) = Some err \<longleftrightarrow>
     (\<exists>pre req. evs = pre @ [GenerateContent req (Rejected err)]) \<or>
     (\<exists>pre q d left. evs = pre @ [WriteFileSync q d (WriteThrew err left)])"
  by (cases evs rule: rev_cases) (auto simp: thrown_by_iff)

lemma generateAndDebug_run:
  assumes "OUTPUT_FILES fw = Some fname" and "generateAndDebug e fw w = (r, w')"
  shows "log w' = log w @ new_events w w'"
    and "\<exists>rest. new_events w w' = ConsoleLog (GeneratingTests fw) # rest"
    and "loops_started (new_events w w') = [fw]"
    and "new_events w w' = pre @ ConsoleError (AllAttemptsFailed f k le) # post \<Longrightarrow>
           f = fw \<and> post = [] \<and> r = Inr ()"
    and "(r = Inl err) = (new_events w w' \<noteq> [] \<and> thrown_by (last (new_events w w')) = Some err)"
    and "new_events w w' = pre' @ ev # post' \<Longrightarrow> thrown_by ev = Some err' \<Longrightarrow>
           post' = [] \<and> r = Inl err'"
proof -
  from assms obtain evs lr ln tail where
    t: "loop_trace e fw (path_join (TESTDIR e) fname) ln 0 [] evs lr"
      "log w' = log w @ ConsoleLog (GeneratingTests fw) # evs @ tail"
      "(\<exists>err. lr = Inl err \<and> r = Inl err \<and> tail = []) \<or>
       (\<exists>k le. lr = Inr (k, True, le) \<and> r = Inr () \<and> tail = []) \<or>
       (\<exists>le. lr = Inr (MAX_ATTEMPTS, False, le) \<and> r = Inr () \<and>
          tail = [ConsoleError (AllAttemptsFailed fw MAX_ATTEMPTS le)])"
    by (rule generateAndDebug_trace)
  have ne: "new_events w w' = ConsoleLog (GeneratingTests fw) # evs @ tail"
    using t(2) by (rule new_events_append)
  show "log w' = log w @ new_events w w'" using t(2) ne by simp
  show "\<exists>rest. new_events w w' = ConsoleLog (GeneratingTests fw) # rest" using ne by simp
  have "loops_started evs = []"
    using loop_trace_events[OF t(1)] by (intro loops_started_none) blast
  moreover have "loops_started tail = []" using t(3) by auto
  ultimately show "loops_started (new_events w w') = [fw]"
    by (simp add: ne loops_started_append)
  show "f = fw \<and> post = [] \<and> r = Inr ()"
    if "new_events w w' = pre @ ConsoleError (AllAttemptsFailed f k le) # post"
  proof -
    let ?x = "ConsoleError (AllAttemptsFailed f k le)"
    from that ne have "(ConsoleLog (GeneratingTests fw) # evs) @ tail = pre @ ?x # post" by simp
    from split_append[OF this] have "\<exists>pre'. pre = (ConsoleLog (GeneratingTests fw) # evs) @ pre' \<and>
        tail = pre' @ ?x # post"
      using loop_trace_events[OF t(1), of ?x]
      by (auto simp: Cons_eq_append_conv)
    then obtain pre' where "tail = pre' @ ?x # post" by blast
    with t(3) show "f = fw \<and> post = [] \<and> r = Inr ()"
      by (auto simp: Cons_eq_append_conv append_eq_Cons_conv)
  qed
  note th = loop_trace_thrown[OF t(1)]
  show "(r = Inl err) = (new_events w w' \<noteq> [] \<and> thrown_by (last (new_events w w')) = Some err)"
  proof (cases "tail = []")
    case True
    with t(3) have lr: "r = Inl err \<longleftrightarrow> lr = Inl err" by auto
    show ?thesis
    proof (cases "evs = []")
      case True
      with th[of err] lr \<open>tail = []\<close> show ?thesis by (simp add: ne)
    next
      case False
      with th[of err] lr \<open>tail = []\<close> show ?thesis by (simp add: ne)
    qed
  next
    case False
    with t(3) show ?thesis by (auto simp: ne)
  qed
  show "post' = [] \<and> r = Inl err'"
    if "new_events w w' = pre' @ ev # post'" "thrown_by ev = Some err'"
  proof -
    from that(1) ne have eq: "ConsoleLog (GeneratingTests fw) # evs @ tail = pre' @ ev # post'"
      by simp
    from that(2) have "ev \<noteq> ConsoleLog (GeneratingTests fw)" by auto
    moreover from t(3) that(2) have "ev \<notin> set tail" by auto
    ultimately obtain pre'' post'' where
      d: "evs = pre'' @ ev # post''" "post' = post'' @ tail"
      using split_in_middle[OF eq] by blast
    from th[of err' pre'' ev post''] d(1) that(2) have "post'' = []" "lr = Inl err'" by simp_all
    with t(3) d(2) show ?thesis by auto
  qed
qed

lemma generateAndDebug_returned:
  assumes "OUTPUT_FILES fw = Some fname" and "generateAndDebug e fw w = (Inr (), w')"
  shows "\<forall>ev \<in> set (new_events w w'). thrown_by ev = None"
proof
  fix ev
  assume "ev \<in> set (new_events w w')"
  then obtain pre post where eq: "new_events w w' = pre @ ev # post"
    by (auto simp: in_set_conv_decomp)
  show "thrown_by ev = None"
  proof (cases "thrown_by ev")
    case (Some err)
    from generateAndDebug_run(6)[OF assms eq Some] show ?thesis by simp
  qed simp
qed

lemma thrown_seq:
  assumes "\<forall>ev \<in> set xs. thrown_by ev = None" and "ys \<noteq> []"
    and "\<forall>err. (r = Inl err) = (ys \<noteq> [] \<and> thrown_by (last ys) = Some err)"
    and "\<forall>pre ev post err. ys = pre @ ev # post \<and> thrown_by ev = Some err \<longrightarrow>
           post = [] \<and> r = Inl err"
  shows "(\<forall>err. (r = Inl err) = (xs @ ys \<noteq> [] \<and> thrown_by (last (xs @ ys)) = Some err)) \<and>
     (\<forall>pre ev post err. xs @ ys = pre @ ev # post \<and> thrown_by ev = Some err \<longrightarrow>
        post = [] \<and> r = Inl err)"
proof (intro conjI allI impI)
  fix err
  show "(r = Inl err) = (xs @ ys \<noteq> [] \<and> thrown_by (last (xs @ ys)) = Some err)"
    using assms(2,3) by simp
next
  fix pre ev post err
  assume a: "xs @ ys = pre @ ev # post \<and> thrown_by ev = Some err"
  then have "xs @ ys = pre @ ev # post" by simp
  from split_append[OF this] assms(1) a obtain pre' where "ys = pre' @ ev # post"
    by auto
  with assms(4) a show "post = []" "r = Inl err" by blast+
qed

lemma OUTPUT_FILES_known:
  "OUTPUT_FILES ''PLAYWRIGHT'' = Some ''google_navigation.playwright.spec.ts''"
  "OUTPUT_FILES ''TESTCAFE'' = Some ''google_navigation.testcafe.ts''"
  "OUTPUT_FILES ''SELENIUM'' = Some ''google_navigation.selenium.spec.cjs''"
  by (simp_all add: OUTPUT_FILES_def)

lemma new_events_trans:
  "log w1 = log w @ new_events w w1 \<Longrightarrow> log w2 = log w1 @ new_events w1 w2 \<Longrightarrow>
     new_events w w2 = new_events w w1 @ new_events w1 w2"
  by (metis append.assoc new_events_append)

lemma generateAll_cases:
  assumes "generateAll e w = (r, w')"
  obtains (first) err where "generateAndDebug e ''PLAYWRIGHT'' w = (Inl err, w')" "r = Inl err"
  | (second) err w1 where "generateAndDebug e ''PLAYWRIGHT'' w = (Inr (), w1)"
      "generateAndDebug e ''TESTCAFE'' w1 = (Inl err, w')" "r = Inl err"
  | (third) w1 w2 where "generateAndDebug e ''PLAYWRIGHT'' w = (Inr (), w1)"
      "generateAndDebug e ''TESTCAFE'' w1 = (Inr (), w2)"
      "generateAndDebug e ''SELENIUM'' w2 = (r, w')"
  using assms by (auto simp: generateAll_def split: prod.splits sum.splits)

lemma generateAll_thrown:
  assumes "generateAll e w = (r, w')"
  shows "(\<forall>err. (r = Inl err) =
           (new_events w w' \<noteq> [] \<and> thrown_by (last (new_events w w')) = Some err)) \<and>
     (\<forall>pre ev post err. new_events w w' = pre @ ev # post \<and> thrown_by ev = Some err \<longrightarrow>
        post = [] \<and> r = Inl err)"
  using assms
proof (cases rule: generateAll_cases)
  case (first err0)
  note P = generateAndDebug_run[OF OUTPUT_FILES_known(1) first(1)]
  have "\<forall>err. (Inl err0 = Inl err) =
           (new_events w w' \<noteq> [] \<and> thrown_by (last (new_events w w')) = Some err)"
    using P(5) by blast
  moreover have "\<forall>pre ev post err. new_events w w' = pre @ ev # post \<and> thrown_by ev = Some err \<longrightarrow>
        post = [] \<and> Inl err0 = (Inl err :: js_error + unit)"
    using P(6) by blast
  ultimately show ?thesis unfolding first(2) by (rule conjI)
next
  case (second err0 w1)
  note P = generateAndDebug_run[OF OUTPUT_FILES_known(1) second(1)]
  note T = generateAndDebug_run[OF OUTPUT_FILES_known(2) second(2)]
  have ne: "new_events w w' = new_events w w1 @ new_events w1 w'"
    using P(1) T(1) by (rule new_events_trans)
  have X: "\<forall>ev \<in> set (new_events w w1). thrown_by ev = None"
    using OUTPUT_FILES_known(1) second(1) by (rule generateAndDebug_returned)
  have Y: "new_events w1 w' \<noteq> []" using T(2) by auto
  have Y5: "\<forall>err. (Inl err0 = Inl err) =
           (new_events w1 w' \<noteq> [] \<and> thrown_by (last (new_events w1 w')) = Some err)"
    using T(5) by blast
  have Y6: "\<forall>pre ev post err. new_events w1 w' = pre @ ev # post \<and> thrown_by ev = Some err \<longrightarrow>
        post = [] \<and> Inl err0 = (Inl err :: js_error + unit)"
    using T(6) by blast
  from thrown_seq[OF X Y Y5 Y6] show ?thesis unfolding second(3) ne .
next
  case (third w1 w2)
  note P = generateAndDebug_run[OF OUTPUT_FILES_known(1) third(1)]
  note T = generateAndDebug_run[OF OUTPUT_FILES_known(2) third(2)]
  note L = generateAndDebug_run[OF OUTPUT_FILES_known(3) third(3)]
  have ne1: "new_events w w2 = new_events w w1 @ new_events w1 w2"
    using P(1) T(1) by (rule new_events_trans)
  have "log w2 = log w @ new_events w w2" using P(1) T(1) ne1 by simp
  then have ne: "new_events w w' = new_events w w2 @ new_events w2 w'"
    using L(1) by (rule new_events_trans)
  have X: "\<forall>ev \<in> set (new_events w w2). thrown_by ev = None"
    using generateAndDebug_returned[OF OUTPUT_FILES_known(1) third(1)]
      generateAndDebug_returned[OF OUTPUT_FILES_known(2) third(2)]
    by (auto simp: ne1)
  have Y: "new_events w2 w' \<noteq> []" using L(2) by auto
  have Y5: "\<forall>err. (r = Inl err) =
           (new_events w2 w' \<noteq> [] \<and> thrown_by (last (new_events w2 w')) = Some err)"
    using L(5) by blast
  have Y6: "\<forall>pre ev post err. new_events w2 w' = pre @ ev # post \<and> thrown_by ev = Some err \<longrightarrow>
        post = [] \<and> r = Inl err"
    using L(6) by blast
  from thrown_seq[OF X Y Y5 Y6] show ?thesis unfolding ne .
qed

section \<open>Errors of an attempt\<close>

text \<open>
  Claim C4, as stated, fails: \<open>generateAndDebug\<close> has no \<^verbatim>\<open>try\<close> around
  \<open>generateTestScript\<close>. When the generative service rejects the first request, the
  error leaves \<open>generateAndDebug\<close> (and \<open>generateAll\<close>) after that one request: there is
  no retry and no command.
\<close>

theorem generation_error_escapes_counterexample:
  "generateAndDebug rejectingEnv ''PLAYWRIGHT'' emptyWorld =
     (Inl (JsError ''429 quota exceeded'' None),
      \<lparr>files = Map.empty,
       log = [ConsoleLog (GeneratingTests ''PLAYWRIGHT''),
              ConsoleLog (ExecutingAttempt ''PLAYWRIGHT'' 1),
              GenerateContent [promptText rejectingEnv ''PLAYWRIGHT'' [], Some userPrompt]
                (Rejected (JsError ''429 quota exceeded'' None))]\<rparr>) \<and>
   fst (generateAll rejectingEnv emptyWorld) = Inl (JsError ''429 quota exceeded'' None)"
  by (simp add: run_defs rejectingEnv_simps generateAll_def)

text \<open>
  Claim C4, amended. Every error raised while a script is executed is caught inside
  \<open>executeTestScript\<close>, which never throws, and becomes the error text of the attempt:
  a failed command is followed by the warning with that text and then either by the
  next attempt, whose prompt is built from that text, or, after the last attempt, by
  the final report. An error raised while a script is generated (a rejected request) or
  while it is written (a write that throws) is not caught: such an event is the last
  event of the run of \<open>generateAndDebug\<close> (for a framework with an output file) and of
  the run of \<open>generateAll\<close>, which end with that error, and these are the only errors
  that leave \<open>generateAndDebug\<close> and \<open>generateAll\<close>.
\<close>

theorem execution_errors_feed_the_retry:
  assumes "OUTPUT_FILES fw = Some fname" and "generateAndDebug e fw w = (r, w')"
    and "generateAll e v = (ra, v')"
  shows "(\<exists>x. fst (executeTestScript e fw p u) = Inr x) \<and>
     (\<forall>pre line err post.
        new_events w w' = pre @ ExecPromise line (Rejected err) # post \<longrightarrow>
        (\<exists>rest. post = ConsoleWarn (FailedOnAttempt fw (length (filter is_command pre) + 1)
                           (caught_output err)) # rest \<and>
           (rest = [ConsoleError (AllAttemptsFailed fw MAX_ATTEMPTS (caught_output err))] \<and>
              r = Inr () \<and> length (filter is_command pre) + 1 = MAX_ATTEMPTS \<or>
            (\<exists>s rest'. rest =
               ConsoleLog (ExecutingAttempt fw (length (filter is_command pre) + 2)) #
               GenerateContent [promptText e fw (caught_output err), Some userPrompt] s #
               rest')))) \<and>
     (\<forall>err. r = Inl err \<longleftrightarrow>
        (\<exists>pre req. new_events w w' = pre @ [GenerateContent req (Rejected err)]) \<or>
        (\<exists>pre q d left. new_events w w' = pre @ [WriteFileSync q d (WriteThrew err left)])) \<and>
     (\<forall>pre req err post.
        new_events w w' = pre @ GenerateContent req (Rejected err) # post \<longrightarrow>
          post = [] \<and> r = Inl err) \<and>
     (\<forall>pre q d err left post.
        new_events w w' = pre @ WriteFileSync q d (WriteThrew err left) # post \<longrightarrow>
          post = [] \<and> r = Inl err) \<and>
     (\<forall>err. ra = Inl err \<longleftrightarrow>
        (\<exists>pre req. new_events v v' = pre @ [GenerateContent req (Rejected err)]) \<or>
        (\<exists>pre q d left. new_events v v' = pre @ [WriteFileSync q d (WriteThrew err left)])) \<and>
     (\<forall>pre req err post.
        new_events v v' = pre @ GenerateContent req (Rejected err) # post \<longrightarrow>
          post = [] \<and> ra = Inl err) \<and>
     (\<forall>pre q d err left post.
        new_events v v' = pre @ WriteFileSync q d (WriteThrew err left) # post \<longrightarrow>
          post = [] \<and> ra = Inl err)"
proof -
  let ?p = "path_join (TESTDIR e) fname"
  from assms(1,2) obtain evs lr ln tail where
    t: "loop_trace e fw ?p ln 0 [] evs lr"
      "log w' = log w @ ConsoleLog (GeneratingTests fw) # evs @ tail"
      "(\<exists>err. lr = Inl err \<and> r = Inl err \<and> tail = []) \<or>
       (\<exists>k le. lr = Inr (k, True, le) \<and> r = Inr () \<and> tail = []) \<or>
       (\<exists>le. lr = Inr (MAX_ATTEMPTS, False, le) \<and> r = Inr () \<and>
          tail = [ConsoleError (AllAttemptsFailed fw MAX_ATTEMPTS le)])"
    by (rule generateAndDebug_trace)
  have ne: "new_events w w' = ConsoleLog (GeneratingTests fw) # evs @ tail"
    using t(2) by (rule new_events_append)
  have 1: "\<exists>x. fst (executeTestScript e fw p u) = Inr x"
    by (auto simp: executeTestScript_def split: prod.splits sum.splits)
  have 2: "\<forall>pre line err post.
        new_events w w' = pre @ ExecPromise line (Rejected err) # post \<longrightarrow>
        (\<exists>rest. post = ConsoleWarn (FailedOnAttempt fw (length (filter is_command pre) + 1)
                           (caught_output err)) # rest \<and>
           (rest = [ConsoleError (AllAttemptsFailed fw MAX_ATTEMPTS (caught_output err))] \<and>
              r = Inr () \<and> length (filter is_command pre) + 1 = MAX_ATTEMPTS \<or>
            (\<exists>s rest'. rest =
               ConsoleLog (ExecutingAttempt fw (length (filter is_command pre) + 2)) #
               GenerateContent [promptText e fw (caught_output err), Some userPrompt] s #
               rest')))"
  proof (intro allI impI)
    fix pre line err post
    let ?x = "ExecPromise line (Rejected err)"
    assume "new_events w w' = pre @ ?x # post"
    with ne have eq: "ConsoleLog (GeneratingTests fw) # evs @ tail = pre @ ?x # post" by simp
    from t(3) have "?x \<notin> set tail" by auto
    with split_in_middle[OF eq] obtain pre' post' where
      d: "pre = ConsoleLog (GeneratingTests fw) # pre'" "evs = pre' @ ?x # post'"
        "post = post' @ tail" by auto
    from loop_trace_failure[OF t(1) d(2)] obtain rest where
      rest: "post' = ConsoleWarn (FailedOnAttempt fw (Suc (length (filter is_command pre')))
                        (caught_output err)) # rest"
        "rest = [] \<and> lr = Inr (MAX_ATTEMPTS, False, caught_output err) \<and>
           Suc (length (filter is_command pre')) = MAX_ATTEMPTS \<or>
         (\<exists>s rest'. rest =
            ConsoleLog (ExecutingAttempt fw (Suc (Suc (length (filter is_command pre'))))) #
            GenerateContent [promptText e fw (caught_output err), Some userPrompt] s # rest')"
      by auto
    from rest(2) show "\<exists>rest. post = ConsoleWarn (FailedOnAttempt fw
                           (length (filter is_command pre) + 1) (caught_output err)) # rest \<and>
           (rest = [ConsoleError (AllAttemptsFailed fw MAX_ATTEMPTS (caught_output err))] \<and>
              r = Inr () \<and> length (filter is_command pre) + 1 = MAX_ATTEMPTS \<or>
            (\<exists>s rest'. rest =
               ConsoleLog (ExecutingAttempt fw (length (filter is_command pre) + 2)) #
               GenerateContent [promptText e fw (caught_output err), Some userPrompt] s #
               rest'))"
    proof
      assume "rest = [] \<and> lr = Inr (MAX_ATTEMPTS, False, caught_output err) \<and>
           Suc (length (filter is_command pre')) = MAX_ATTEMPTS"
      with t(3) d rest(1) show ?thesis by auto
    next
      assume "\<exists>s rest'. rest =
            ConsoleLog (ExecutingAttempt fw (Suc (Suc (length (filter is_command pre'))))) #
            GenerateContent [promptText e fw (caught_output err), Some userPrompt] s # rest'"
      with d rest(1) show ?thesis by auto
    qed
  qed
  note R = generateAndDebug_run[OF assms(1,2)]
  have 3: "\<forall>err. r = Inl err \<longleftrightarrow>
        (\<exists>pre req. new_events w w' = pre @ [GenerateContent req (Rejected err)]) \<or>
        (\<exists>pre q d left. new_events w w' = pre @ [WriteFileSync q d (WriteThrew err left)])"
    using R(5) unfolding last_thrown_iff by blast
  have 4: "\<forall>pre req err post.
        new_events w w' = pre @ GenerateContent req (Rejected err) # post \<longrightarrow>
          post = [] \<and> r = Inl err"
  proof (intro allI impI)
    fix pre req err post
    assume "new_events w w' = pre @ GenerateContent req (Rejected err) # post"
    then show "post = [] \<and> r = Inl err" by (rule R(6)) simp
  qed
  have 5: "\<forall>pre q d err left post.
        new_events w w' = pre @ WriteFileSync q d (WriteThrew err left) # post \<longrightarrow>
          post = [] \<and> r = Inl err"
  proof (intro allI impI)
    fix pre q d err left post
    assume "new_events w w' = pre @ WriteFileSync q d (WriteThrew err left) # post"
    then show "post = [] \<and> r = Inl err" by (rule R(6)) simp
  qed
  note A = generateAll_thrown[OF assms(3)]
  have 6: "\<forall>err. ra = Inl err \<longleftrightarrow>
        (\<exists>pre req. new_events v v' = pre @ [GenerateContent req (Rejected err)]) \<or>
        (\<exists>pre q d left. new_events v v' = pre @ [WriteFileSync q d (WriteThrew err left)])"
    using A[THEN conjunct1] unfolding last_thrown_iff .
  have 7: "\<forall>pre req err post.
        new_events v v' = pre @ GenerateContent req (Rejected err) # post \<longrightarrow>
          post = [] \<and> ra = Inl err"
  proof (intro allI impI)
    fix pre req err post
    assume "new_events v v' = pre @ GenerateContent req (Rejected err) # post"
    moreover have "thrown_by (GenerateContent req (Rejected err)) = Some err" by simp
    ultimately show "post = [] \<and> ra = Inl err" using A[THEN conjunct2] by blast
  qed
  have 8: "\<forall>pre q d err left post.
        new_events v v' = pre @ WriteFileSync q d (WriteThrew err left) # post \<longrightarrow>
          post = [] \<and> ra = Inl err"
  proof (intro allI impI)
    fix pre q d err left post
    assume "new_events v v' = pre @ WriteFileSync q d (WriteThrew err left) # post"
    moreover have "thrown_by (WriteFileSync q d (WriteThrew err left)) = Some err" by simp
    ultimately show "post = [] \<and> ra = Inl err" using A[THEN conjunct2] by blast
  qed
  from 1 2 3 4 5 6 7 8 show ?thesis by (intro conjI)
qed

text \<open>
  In the timeout scenario the failed first command is followed by the warning and by
  the second request, whose prompt holds the error text; with a rejecting generative
  service the error of the first request leaves \<open>generateAndDebug\<close> and \<open>generateAll\<close>;
  with an output path that cannot be written the error of the first write leaves them.
\<close>

theorem execution_errors_feed_the_retry_witness:
  "OUTPUT_FILES ''PLAYWRIGHT'' = Some ''google_navigation.playwright.spec.ts'' \<and>
   take 8 (new_events emptyWorld (snd (generateAndDebug timeoutEnv ''PLAYWRIGHT'' emptyWorld))) =
     [ConsoleLog (GeneratingTests ''PLAYWRIGHT''),
      ConsoleLog (ExecutingAttempt ''PLAYWRIGHT'' 1),
      GenerateContent [promptText timeoutEnv ''PLAYWRIGHT'' [], Some userPrompt]
        (Resolved sampleResponse),
      WriteFileSync ''/repo/tests/google_navigation.playwright.spec.ts''
        (scriptText sampleResponse) Written] @
     ExecPromise ''cd /repo/tests && npx playwright test google_navigation.playwright.spec.ts''
       (Rejected (JsError ''Command failed'' (Some ''Timeout 30000ms exceeded''))) #
     [ConsoleWarn (FailedOnAttempt ''PLAYWRIGHT'' 1 ''Timeout 30000ms exceeded''),
      ConsoleLog (ExecutingAttempt ''PLAYWRIGHT'' 2),
      GenerateContent
        [promptText timeoutEnv ''PLAYWRIGHT'' ''Timeout 30000ms exceeded'', Some userPrompt]
        (Resolved sampleResponse)] \<and>
   fst (generateAndDebug rejectingEnv ''PLAYWRIGHT'' emptyWorld) =
     Inl (JsError ''429 quota exceeded'' None) \<and>
   fst (generateAll rejectingEnv emptyWorld) = Inl (JsError ''429 quota exceeded'' None) \<and>
   fst (generateAndDebug readonlyEnv ''PLAYWRIGHT'' emptyWorld) =
     Inl (JsError ''EISDIR: illegal operation on a directory, open'' None) \<and>
   fst (generateAll readonlyEnv emptyWorld) =
     Inl (JsError ''EISDIR: illegal operation on a directory, open'' None)"
proof -
  let ?run = "generateAndDebug timeoutEnv ''PLAYWRIGHT'' emptyWorld"
  let ?run2 = "generateAndDebug rejectingEnv ''PLAYWRIGHT'' emptyWorld"
  let ?run3 = "generateAndDebug readonlyEnv ''PLAYWRIGHT'' emptyWorld"
  let ?all = "generateAll timeoutEnv emptyWorld"
  let ?all2 = "generateAll rejectingEnv emptyWorld"
  let ?all3 = "generateAll readonlyEnv emptyWorld"
  let ?err = "JsError ''Command failed'' (Some ''Timeout 30000ms exceeded'')"
  let ?quota = "JsError ''429 quota exceeded'' None"
  let ?eisdir = "JsError ''EISDIR: illegal operation on a directory, open'' None"
  let ?pre = "[ConsoleLog (GeneratingTests ''PLAYWRIGHT''),
      ConsoleLog (ExecutingAttempt ''PLAYWRIGHT'' 1),
      GenerateContent [promptText timeoutEnv ''PLAYWRIGHT'' [], Some userPrompt]
        (Resolved sampleResponse),
      WriteFileSync ''/repo/tests/google_navigation.playwright.spec.ts''
        (scriptText sampleResponse) Written]"
  let ?line = "''cd /repo/tests && npx playwright test google_navigation.playwright.spec.ts''"
  let ?post = "drop 5 (new_events emptyWorld (snd ?run))"
  have known: "OUTPUT_FILES ''PLAYWRIGHT'' = Some ''google_navigation.playwright.spec.ts''"
    by (simp add: OUTPUT_FILES_def)
  have run: "?run = (fst ?run, snd ?run)" and run2: "?run2 = (fst ?run2, snd ?run2)"
    and run3: "?run3 = (fst ?run3, snd ?run3)"
    and all: "?all = (fst ?all, snd ?all)" and all2: "?all2 = (fst ?all2, snd ?all2)"
    and all3: "?all3 = (fst ?all3, snd ?all3)"
    by simp_all
  have evs: "new_events emptyWorld (snd ?run) = ?pre @ ExecPromise ?line (Rejected ?err) # ?post"
    by (simp add: run_defs timeoutEnv_simps path_defs new_events_def)
  note inst = execution_errors_feed_the_retry[OF known run all, of "[]" emptyWorld]
  from inst[THEN conjunct2, THEN conjunct1] evs obtain rest where
    rest: "?post = ConsoleWarn (FailedOnAttempt ''PLAYWRIGHT'' (length (filter is_command ?pre) + 1)
                           (caught_output ?err)) # rest"
      "rest = [ConsoleError (AllAttemptsFailed ''PLAYWRIGHT'' MAX_ATTEMPTS (caught_output ?err))] \<and>
          fst ?run = Inr () \<and> length (filter is_command ?pre) + 1 = MAX_ATTEMPTS \<or>
        (\<exists>s rest'. rest =
           ConsoleLog (ExecutingAttempt ''PLAYWRIGHT'' (length (filter is_command ?pre) + 2)) #
           GenerateContent [promptText timeoutEnv ''PLAYWRIGHT'' (caught_output ?err),
             Some userPrompt] s # rest')"
    by blast
  from rest(2) obtain s rest' where
    "rest = ConsoleLog (ExecutingAttempt ''PLAYWRIGHT'' 2) #
       GenerateContent [promptText timeoutEnv ''PLAYWRIGHT'' ''Timeout 30000ms exceeded'',
         Some userPrompt] s # rest'"
    by (auto simp: MAX_ATTEMPTS_def caught_output_def)
  with rest(1) have post: "?post =
      ConsoleWarn (FailedOnAttempt ''PLAYWRIGHT'' 1 ''Timeout 30000ms exceeded'') #
      ConsoleLog (ExecutingAttempt ''PLAYWRIGHT'' 2) #
      GenerateContent [promptText timeoutEnv ''PLAYWRIGHT'' ''Timeout 30000ms exceeded'',
         Some userPrompt] s # rest'"
    by (simp add: caught_output_def)
  have s: "new_events emptyWorld (snd ?run) ! 7 =
      GenerateContent [promptText timeoutEnv ''PLAYWRIGHT'' ''Timeout 30000ms exceeded'',
         Some userPrompt] (Resolved sampleResponse)"
    by (simp add: run_defs timeoutEnv_simps path_defs new_events_def)
  have a: "take 8 (new_events emptyWorld (snd ?run)) =
     ?pre @ ExecPromise ?line (Rejected ?err) #
     [ConsoleWarn (FailedOnAttempt ''PLAYWRIGHT'' 1 ''Timeout 30000ms exceeded''),
      ConsoleLog (ExecutingAttempt ''PLAYWRIGHT'' 2),
      GenerateContent
        [promptText timeoutEnv ''PLAYWRIGHT'' ''Timeout 30000ms exceeded'', Some userPrompt]
        (Resolved sampleResponse)]"
    using s by (subst evs, subst (asm) evs) (simp add: post)
  let ?rej = "GenerateContent [promptText rejectingEnv ''PLAYWRIGHT'' [], Some userPrompt]
         (Rejected ?quota)"
  let ?start = "[ConsoleLog (GeneratingTests ''PLAYWRIGHT''),
       ConsoleLog (ExecutingAttempt ''PLAYWRIGHT'' 1)]"
  have rev: "new_events emptyWorld (snd ?run2) = ?start @ ?rej # []"
    "new_events emptyWorld (snd ?all2) = ?start @ ?rej # []"
    by (simp_all add: run_defs rejectingEnv_simps generateAll_def new_events_def)
  note inst2 = execution_errors_feed_the_retry[OF known run2 all2, of "[]" emptyWorld]
  have b: "fst ?run2 = Inl ?quota"
    by (rule inst2[THEN conjunct2, THEN conjunct2, THEN conjunct2, THEN conjunct1, rule_format, OF rev(1), THEN conjunct2])
  have c: "fst ?all2 = Inl ?quota"
    by (rule inst2[THEN conjunct2, THEN conjunct2, THEN conjunct2, THEN conjunct2, THEN conjunct2, THEN conjunct2, THEN conjunct1, rule_format, OF rev(2), THEN conjunct2])
  let ?gen = "GenerateContent [promptText readonlyEnv ''PLAYWRIGHT'' [], Some userPrompt]
         (Resolved (Some \<lparr>candidates = Some []\<rparr>))"
  let ?wr = "WriteFileSync ''/repo/tests/google_navigation.playwright.spec.ts''
         (scriptText (Some \<lparr>candidates = Some []\<rparr>)) (WriteThrew ?eisdir None)"
  have wev: "new_events emptyWorld (snd ?run3) = (?start @ [?gen]) @ ?wr # []"
    "new_events emptyWorld (snd ?all3) = (?start @ [?gen]) @ ?wr # []"
    by (simp_all add: run_defs readonlyEnv_simps generateAll_def path_defs new_events_def)
  note inst3 = execution_errors_feed_the_retry[OF known run3 all3, of "[]" emptyWorld]
  have d: "fst ?run3 = Inl ?eisdir"
    by (rule inst3[THEN conjunct2, THEN conjunct2, THEN conjunct2, THEN conjunct2, THEN conjunct1, rule_format, OF wev(1), THEN conjunct2])
  have e: "fst ?all3 = Inl ?eisdir"
    by (rule inst3[THEN conjunct2, THEN conjunct2, THEN conjunct2, THEN conjunct2, THEN conjunct2, THEN conjunct2, THEN conjunct2, rule_format, OF wev(2), THEN conjunct2])
  from known a b c d e show ?thesis by (intro conjI)
qed

section \<open>Properties of the multi-framework driver\<close>

text \<open>
  Claim C5, amended. \<open>generateAll\<close> starts the repair loops one after the other in the
  order PLAYWRIGHT, TESTCAFE, SELENIUM, each at most once: the loops started by a run
  are PLAYWRIGHT alone, or PLAYWRIGHT and then TESTCAFE, or all three in that order.
  When \<open>generateAll\<close> returns normally, all three loops ran: its events are those of
  the three loops in that order, each started in the world the previous one left. A
  framework that uses up all its attempts does not stop the driver: the report that all
  attempts failed for PLAYWRIGHT is followed at once by the start of the TESTCAFE loop,
  the one for TESTCAFE by the start of the SELENIUM loop, and the one for SELENIUM is
  the last event of the run.
\<close>

theorem generateAll_runs_frameworks_in_turn:
  assumes "generateAll e w = (r, w')"
  shows "(loops_started (new_events w w') = [''PLAYWRIGHT''] \<or>
      loops_started (new_events w w') = [''PLAYWRIGHT'', ''TESTCAFE''] \<or>
      loops_started (new_events w w') = [''PLAYWRIGHT'', ''TESTCAFE'', ''SELENIUM'']) \<and>
     (r = Inr () \<longrightarrow>
        loops_started (new_events w w') = [''PLAYWRIGHT'', ''TESTCAFE'', ''SELENIUM''] \<and>
        (\<exists>w1 w2. generateAndDebug e ''PLAYWRIGHT'' w = (Inr (), w1) \<and>
           generateAndDebug e ''TESTCAFE'' w1 = (Inr (), w2) \<and>
           generateAndDebug e ''SELENIUM'' w2 = (Inr (), w') \<and>
           new_events w w' = new_events w w1 @ new_events w1 w2 @ new_events w2 w')) \<and>
     (\<forall>pre f k le post.
        new_events w w' = pre @ ConsoleError (AllAttemptsFailed f k le) # post \<longrightarrow>
          f = ''PLAYWRIGHT'' \<and> (\<exists>post'. post = ConsoleLog (GeneratingTests ''TESTCAFE'') # post') \<or>
          f = ''TESTCAFE'' \<and> (\<exists>post'. post = ConsoleLog (GeneratingTests ''SELENIUM'') # post') \<or>
          f = ''SELENIUM'' \<and> post = [] \<and> r = Inr ())"
  using assms
proof (cases rule: generateAll_cases)
  case (first err)
  note P = generateAndDebug_run[OF OUTPUT_FILES_known(1) first(1)]
  have "new_events w w' \<noteq> pre @ ConsoleError (AllAttemptsFailed f k le) # post"
    for pre f k le post
    using P(4)[of pre f k le post] by auto
  with first(2) P(3) show ?thesis by simp
next
  case (second err w1)
  note P = generateAndDebug_run[OF OUTPUT_FILES_known(1) second(1)]
  note T = generateAndDebug_run[OF OUTPUT_FILES_known(2) second(2)]
  have ne: "new_events w w' = new_events w w1 @ new_events w1 w'"
    using P(1) T(1) by (rule new_events_trans)
  have "\<forall>pre f k le post.
        new_events w w' = pre @ ConsoleError (AllAttemptsFailed f k le) # post \<longrightarrow>
          f = ''PLAYWRIGHT'' \<and> (\<exists>post'. post = ConsoleLog (GeneratingTests ''TESTCAFE'') # post')"
  proof (intro allI impI)
    fix pre f k le post
    assume "new_events w w' = pre @ ConsoleError (AllAttemptsFailed f k le) # post"
    then have "new_events w w1 @ new_events w1 w' =
        pre @ ConsoleError (AllAttemptsFailed f k le) # post" by (simp add: ne)
    from split_append[OF this] consider
      (inP) post' where "new_events w w1 = pre @ ConsoleError (AllAttemptsFailed f k le) # post'"
        "post = post' @ new_events w1 w'"
    | (inT) pre' where "new_events w1 w' = pre' @ ConsoleError (AllAttemptsFailed f k le) # post"
      by auto
    then show "f = ''PLAYWRIGHT'' \<and>
        (\<exists>post'. post = ConsoleLog (GeneratingTests ''TESTCAFE'') # post')"
    proof cases
      case inP
      from P(4)[OF inP(1)] inP(2) T(2) show ?thesis by auto
    next
      case inT
      from T(4)[OF inT] show ?thesis by simp
    qed
  qed
  moreover have "loops_started (new_events w w') = [''PLAYWRIGHT'', ''TESTCAFE'']"
    by (simp add: ne loops_started_append P(3) T(3))
  ultimately show ?thesis using second(3) by simp
next
  case (third w1 w2)
  note P = generateAndDebug_run[OF OUTPUT_FILES_known(1) third(1)]
  note T = generateAndDebug_run[OF OUTPUT_FILES_known(2) third(2)]
  note S = generateAndDebug_run[OF OUTPUT_FILES_known(3) third(3)]
  have ne2: "new_events w1 w' = new_events w1 w2 @ new_events w2 w'"
    using T(1) S(1) by (rule new_events_trans)
  have "log w' = log w1 @ new_events w1 w'" using T(1) S(1) ne2 by simp
  with P(1) have "new_events w w' = new_events w w1 @ new_events w1 w'"
    by (rule new_events_trans)
  with ne2 have ne: "new_events w w' = new_events w w1 @ new_events w1 w2 @ new_events w2 w'"
    by simp
  have started: "loops_started (new_events w w') = [''PLAYWRIGHT'', ''TESTCAFE'', ''SELENIUM'']"
    by (simp add: ne loops_started_append P(3) T(3) S(3))
  have isolated: "\<forall>pre f k le post.
        new_events w w' = pre @ ConsoleError (AllAttemptsFailed f k le) # post \<longrightarrow>
          f = ''PLAYWRIGHT'' \<and> (\<exists>post'. post = ConsoleLog (GeneratingTests ''TESTCAFE'') # post') \<or>
          f = ''TESTCAFE'' \<and> (\<exists>post'. post = ConsoleLog (GeneratingTests ''SELENIUM'') # post') \<or>
          f = ''SELENIUM'' \<and> post = [] \<and> r = Inr ()"
  proof (intro allI impI)
    fix pre f k le post
    let ?x = "ConsoleError (AllAttemptsFailed f k le)"
    assume "new_events w w' = pre @ ?x # post"
    then have "new_events w w1 @ (new_events w1 w2 @ new_events w2 w') = pre @ ?x # post"
      by (simp add: ne)
    from split_append[OF this] consider
      (inP) post' where "new_events w w1 = pre @ ?x # post'"
        "post = post' @ new_events w1 w2 @ new_events w2 w'"
    | (later) pre' where "new_events w1 w2 @ new_events w2 w' = pre' @ ?x # post"
      by auto
    then show "f = ''PLAYWRIGHT'' \<and> (\<exists>post'. post = ConsoleLog (GeneratingTests ''TESTCAFE'') # post') \<or>
          f = ''TESTCAFE'' \<and> (\<exists>post'. post = ConsoleLog (GeneratingTests ''SELENIUM'') # post') \<or>
          f = ''SELENIUM'' \<and> post = [] \<and> r = Inr ()"
    proof cases
      case inP
      from P(4)[OF inP(1)] inP(2) T(2) show ?thesis by auto
    next
      case later
      from split_append[OF later] consider
        (inT) post' where "new_events w1 w2 = pre' @ ?x # post'" "post = post' @ new_events w2 w'"
      | (inS) pre'' where "new_events w2 w' = pre'' @ ?x # post"
        by auto
      then show ?thesis
      proof cases
        case inT
        from T(4)[OF inT(1)] inT(2) S(2) show ?thesis by auto
      next
        case inS
        from S(4)[OF inS] show ?thesis by auto
      qed
    qed
  qed
  from third ne started isolated show ?thesis by auto
qed


text \<open>
  Claim C5, as stated, fails in its last part: SELENIUM is the last framework of
  \<open>generateAll\<close>, so no TESTCAFE loop runs after it. When every command fails, the three
  loops start in the order PLAYWRIGHT, TESTCAFE, SELENIUM, from the start of the
  SELENIUM loop on no other loop starts, and the report that all SELENIUM attempts
  failed is the last event of the run.
\<close>

theorem selenium_runs_last_counterexample:
  "fst (generateAll failingEnv emptyWorld) = Inr () \<and>
   loops_started (new_events emptyWorld (snd (generateAll failingEnv emptyWorld))) =
     [''PLAYWRIGHT'', ''TESTCAFE'', ''SELENIUM''] \<and>
   loops_started (dropWhile (\<lambda>ev. ev \<noteq> ConsoleLog (GeneratingTests ''SELENIUM''))
     (new_events emptyWorld (snd (generateAll failingEnv emptyWorld)))) = [''SELENIUM''] \<and>
   last (new_events emptyWorld (snd (generateAll failingEnv emptyWorld))) =
     ConsoleError (AllAttemptsFailed ''SELENIUM'' 3 ''Command failed'')"
  by (simp add: run_defs failingEnv_simps generateAll_def new_events_def)

text \<open>
  When every command fails, the report that all TESTCAFE attempts failed is followed at
  once by the start of the SELENIUM loop. When every request is rejected, only the
  PLAYWRIGHT loop starts.
\<close>

theorem generateAll_runs_frameworks_in_turn_witness:
  "fst (generateAll failingEnv emptyWorld) = Inr () \<and>
   loops_started (new_events emptyWorld (snd (generateAll failingEnv emptyWorld))) =
     [''PLAYWRIGHT'', ''TESTCAFE'', ''SELENIUM''] \<and>
   (\<exists>pre post'. new_events emptyWorld (snd (generateAll failingEnv emptyWorld)) =
      pre @ ConsoleError (AllAttemptsFailed ''TESTCAFE'' 3 ''Command failed'') #
      ConsoleLog (GeneratingTests ''SELENIUM'') # post') \<and>
   fst (generateAll rejectingEnv emptyWorld) = Inl (JsError ''429 quota exceeded'' None) \<and>
   loops_started (new_events emptyWorld (snd (generateAll rejectingEnv emptyWorld))) =
     [''PLAYWRIGHT'']"
proof -
  let ?run = "generateAll failingEnv emptyWorld"
  let ?evs = "new_events emptyWorld (snd ?run)"
  let ?x = "ConsoleError (AllAttemptsFailed ''TESTCAFE'' 3 ''Command failed'')"
  have run: "?run = (fst ?run, snd ?run)" by simp
  have r: "fst ?run = Inr ()"
    by (simp add: run_defs failingEnv_simps generateAll_def)
  have at: "33 < length ?evs" "?evs ! 33 = ?x"
    by (simp_all add: run_defs failingEnv_simps generateAll_def new_events_def)
  from at(1) have "?evs = take 33 ?evs @ ?evs ! 33 # drop (Suc 33) ?evs"
    by (rule id_take_nth_drop)
  with at(2) have split: "?evs = take 33 ?evs @ ?x # drop (Suc 33) ?evs" by simp
  note inst = generateAll_runs_frameworks_in_turn[OF run]
  from inst[THEN conjunct2, THEN conjunct1] r have started:
    "loops_started ?evs = [''PLAYWRIGHT'', ''TESTCAFE'', ''SELENIUM'']" by simp
  from inst[THEN conjunct2, THEN conjunct2] split obtain post' where
    "drop (Suc 33) ?evs = ConsoleLog (GeneratingTests ''SELENIUM'') # post'"
    by fastforce
  with split have "?evs = take 33 ?evs @ ?x # ConsoleLog (GeneratingTests ''SELENIUM'') # post'"
    by simp
  then have "\<exists>pre post'. ?evs = pre @ ?x # ConsoleLog (GeneratingTests ''SELENIUM'') # post'"
    by blast
  moreover have "fst (generateAll rejectingEnv emptyWorld) = Inl (JsError ''429 quota exceeded'' None)"
    "loops_started (new_events emptyWorld (snd (generateAll rejectingEnv emptyWorld))) =
       [''PLAYWRIGHT'']"
    by (simp_all add: run_defs rejectingEnv_simps generateAll_def new_events_def)
  ultimately show ?thesis using r started by (intro conjI)
qed

section \<open>Properties of the project context scanner\<close>


lemma visible_nonempty: "visible dir items path ent \<Longrightarrow> items \<noteq> []"
  by (induction rule: visible.induct) auto

lemma visible_Nil [simp]: "\<not> visible dir [] path ent"
  using visible_nonempty by blast






lemma listed_Nil [simp]: "\<not> listed dir [] line"
  by (simp add: listed_def)



















end
